theory Spec2Isabelle
  imports Main "HOL-Library.AList" "HOL-Library.Multiset"
begin

section \<open>Errors raised by the gateway\<close>

text \<open>
  Both source files signal a failure by raising: \<^verbatim>\<open>HTTPException(status_code, detail)\<close>
  is what the handlers raise on purpose; the other constructors are the Python
  exceptions that can leave a handler without having been caught. A handler returns
  \<open>py_exception + 'a\<close>, with \<open>Inl\<close> for the exception raised.
\<close>

datatype py_exception =
    HTTPException int string
  | KeyError
  | IndexError
  | AttributeError
  | TypeError
  | UncaughtException

section \<open>Identifier normalisation: \<^verbatim>\<open>validate_phone_number\<close>\<close>

text \<open>
  A Python \<^verbatim>\<open>str\<close> is a sequence of Unicode code points, modelled as a list of natural
  numbers; \<open>str\<close> gives the code points of a literal.
\<close>

type_synonym pystr = "nat list"

definition str :: "string \<Rightarrow> pystr" where
  "str s = map of_char s"

text \<open>
  \<^verbatim>\<open>\d\<close> in a \<^verbatim>\<open>str\<close> pattern matches every Unicode decimal digit (category Nd), not only
  \<^verbatim>\<open>0\<close> to \<^verbatim>\<open>9\<close>. In Unicode 14 these are 66 blocks of ten consecutive code points, the
  digits 0 to 9 of one script each; the list gives the first code point of every block
  (\<open>0x30\<close> is the ASCII block, \<open>0x660\<close> the Arabic-Indic one).
\<close>

definition decimal_digit_blocks :: "nat list" where
  "decimal_digit_blocks =
     [0x30, 0x660, 0x6F0, 0x7C0, 0x966, 0x9E6, 0xA66, 0xAE6,
      0xB66, 0xBE6, 0xC66, 0xCE6, 0xD66, 0xDE6, 0xE50, 0xED0,
      0xF20, 0x1040, 0x1090, 0x17E0, 0x1810, 0x1946, 0x19D0, 0x1A80,
      0x1A90, 0x1B50, 0x1BB0, 0x1C40, 0x1C50, 0xA620, 0xA8D0, 0xA900,
      0xA9D0, 0xA9F0, 0xAA50, 0xABF0, 0xFF10, 0x104A0, 0x10D30, 0x11066,
      0x110F0, 0x11136, 0x111D0, 0x112F0, 0x11450, 0x114D0, 0x11650, 0x116C0,
      0x11730, 0x118E0, 0x11950, 0x11C50, 0x11D50, 0x11DA0, 0x16A60, 0x16AC0,
      0x16B50, 0x1D7CE, 0x1D7D8, 0x1D7E2, 0x1D7EC, 0x1D7F6, 0x1E140, 0x1E2F0,
      0x1E950, 0x1FBF0]"

definition is_digit :: "nat \<Rightarrow> bool" where
  "is_digit c = list_ex (\<lambda>b. b \<le> c \<and> c < b + 10) decimal_digit_blocks"

text \<open>\<^verbatim>\<open>\s\<close> in a \<^verbatim>\<open>str\<close> pattern: the code points that \<^verbatim>\<open>str.isspace\<close> accepts.\<close>

definition is_space :: "nat \<Rightarrow> bool" where
  "is_space c =
     ((0x9 \<le> c \<and> c \<le> 0xD) \<or> (0x1C \<le> c \<and> c \<le> 0x20) \<or> c = 0x85 \<or> c = 0xA0 \<or>
      c = 0x1680 \<or> (0x2000 \<le> c \<and> c \<le> 0x200A) \<or> c = 0x2028 \<or> c = 0x2029 \<or>
      c = 0x202F \<or> c = 0x205F \<or> c = 0x3000)"

text \<open>The character class \<^verbatim>\<open>[\s\-\(\)\+]\<close> of the \<^verbatim>\<open>re.sub\<close> call.\<close>

definition is_separator :: "nat \<Rightarrow> bool" where
  "is_separator c = (is_space c \<or> c \<in> set (str ''-()+''))"

text \<open>\<^verbatim>\<open>re.sub(r'[\s\-\(\)\+]', '', phone)\<close>: every character of the class is deleted.\<close>

definition strip_separators :: "pystr \<Rightarrow> pystr" where
  "strip_separators phone = filter (\<lambda>c. \<not> is_separator c) phone"

text \<open>\<^verbatim>\<open>s.startswith(p)\<close>.\<close>

definition startswith :: "'a list \<Rightarrow> 'a list \<Rightarrow> bool" where
  "startswith s p = (take (length p) s = p)"

text \<open>
  \<^verbatim>\<open>re.match(r'^\+[1-9]\d{1,14}$', phone)\<close>. The pattern up to the \<^verbatim>\<open>$\<close> is
  \<open>international_body\<close>; Python's \<^verbatim>\<open>$\<close> matches at the end of the string and also just
  before a newline that ends the string.
\<close>

fun international_body :: "pystr \<Rightarrow> bool" where
  "international_body (p # d # ds) =
     (p = of_char CHR ''+'' \<and> d \<in> set (str ''123456789'') \<and>
      1 \<le> length ds \<and> length ds \<le> 14 \<and> list_all is_digit ds)"
| "international_body _ = False"

definition match_international :: "pystr \<Rightarrow> bool" where
  "match_international phone =
     (international_body phone \<or>
      (phone \<noteq> [] \<and> last phone = of_char (CHR 0x0A) \<and> international_body (butlast phone)))"

definition validate_phone_number :: "pystr \<Rightarrow> py_exception + pystr" where
  "validate_phone_number raw =
     (let phone = strip_separators raw;
          phone = (if \<not> (startswith phone (str ''+'') \<or> startswith phone (str ''00''))
                   then of_char CHR ''+'' # phone
                   else if startswith phone (str ''00'')
                   then of_char CHR ''+'' # drop 2 phone
                   else phone)
      in if \<not> match_international phone
         then Inl (HTTPException 400 ''Invalid international phone number format'')
         else Inr phone)"

section \<open>Chat aggregation: the two loops of \<^verbatim>\<open>get_chats\<close>\<close>

text \<open>
  The value under the key \<^verbatim>\<open>"text"\<close> of a message's content, when the key is present:
  JSON null or a string.
\<close>

datatype text_value = PyNone | PyStr string

text \<open>
  \<^verbatim>\<open>message["content"]\<close>: \<open>content_text\<close> is \<open>None\<close> when the dict has no key \<^verbatim>\<open>"text"\<close>,
  \<open>Some PyNone\<close> when the key holds null; \<open>content_type\<close> is the value under \<^verbatim>\<open>"type"\<close>.
\<close>

record content =
  content_text :: "text_value option"
  content_type :: string

text \<open>
  The fields of a message that the aggregation reads. In \<^verbatim>\<open>whatsapp_api.py\<close> they are
  \<^verbatim>\<open>message["source"]["chat"]\<close>, \<^verbatim>\<open>["source"]["is_group"]\<close>, \<^verbatim>\<open>["content"]\<close>,
  \<^verbatim>\<open>["timestamp"]\<close>, \<^verbatim>\<open>["is_read"]\<close> and \<^verbatim>\<open>["source"]["is_from_me"]\<close>; in
  \<^verbatim>\<open>whatsapp_api_multisession.py\<close> they are \<^verbatim>\<open>message["chat_id"]\<close>, \<^verbatim>\<open>["is_group"]\<close>,
  \<^verbatim>\<open>["content"]\<close>, \<^verbatim>\<open>["timestamp"]\<close>, \<^verbatim>\<open>["is_read"]\<close> and \<^verbatim>\<open>["is_from_me"]\<close>. Timestamps
  are compared with \<^verbatim>\<open>>\<close> only, so their type is any linear order (ISO strings, numbers).
\<close>

record 't message =
  msg_chat :: string
  msg_is_group :: bool
  msg_content :: content
  msg_timestamp :: 't
  msg_is_read :: bool
  msg_is_from_me :: bool

text \<open>One entry of \<^verbatim>\<open>chats\<close>, with the keys of the source.\<close>

record 't chat_summary =
  chat_id :: string
  is_group :: bool
  latest_message :: text_value
  latest_timestamp :: 't
  unread_count :: int

text \<open>
  The dict \<^verbatim>\<open>chats\<close>: a Python dict keeps its keys in the order of their first
  insertion and an assignment to a key that exists replaces the value in place, which is
  what \<open>AList.update\<close> does on an association list.
\<close>

type_synonym 't chats = "(string \<times> 't chat_summary) list"

text \<open>\<^verbatim>\<open>f"[{message['content']['type']}]"\<close>.\<close>

definition placeholder :: "content \<Rightarrow> string" where
  "placeholder c = ''['' @ content_type c @ '']''"

text \<open>
  \<^verbatim>\<open>whatsapp_api.py\<close>, line 209:
  \<^verbatim>\<open>message["content"]["text"] or f"[{message['content']['type']}]"\<close>. The subscript
  raises \<^verbatim>\<open>KeyError\<close> when the key is absent; null and the empty string are falsy.
\<close>

definition text_or_placeholder :: "content \<Rightarrow> py_exception + text_value" where
  "text_or_placeholder c =
     (case content_text c of
        None \<Rightarrow> Inl KeyError
      | Some PyNone \<Rightarrow> Inr (PyStr (placeholder c))
      | Some (PyStr s) \<Rightarrow> Inr (PyStr (if s = [] then placeholder c else s)))"

text \<open>
  \<^verbatim>\<open>whatsapp_api_multisession.py\<close>, line 372:
  \<^verbatim>\<open>message["content"].get("text", f"[{message['content']['type']}]")\<close>. The default is
  returned only when the key is absent.
\<close>

definition text_get_default :: "content \<Rightarrow> py_exception + text_value" where
  "text_get_default c =
     (case content_text c of
        None \<Rightarrow> Inr (PyStr (placeholder c))
      | Some v \<Rightarrow> Inr v)"

text \<open>
  The condition of the first loop:
  \<^verbatim>\<open>chat_id not in chats or message["timestamp"] > chats[chat_id]["latest_timestamp"]\<close>.
\<close>

definition is_newer :: "'t::linorder chats \<Rightarrow> 't message \<Rightarrow> bool" where
  "is_newer chats m =
     (case map_of chats (msg_chat m) of
        None \<Rightarrow> True
      | Some s \<Rightarrow> msg_timestamp m > latest_timestamp s)"

text \<open>The dict assigned to \<^verbatim>\<open>chats[chat_id]\<close>, with the rendered text \<open>t\<close>.\<close>

definition new_entry :: "'t message \<Rightarrow> text_value \<Rightarrow> 't chat_summary" where
  "new_entry m t =
     \<lparr>chat_id = msg_chat m, is_group = msg_is_group m, latest_message = t,
      latest_timestamp = msg_timestamp m, unread_count = 0\<rparr>"

text \<open>
  The first loop ("group messages by chat and get latest message for each"). The two
  files differ in it only by the expression for \<^verbatim>\<open>"latest_message"\<close>, the parameter
  \<open>render\<close>; the expression is evaluated only when the entry is assigned.
\<close>

fun latest_loop ::
  "(content \<Rightarrow> py_exception + text_value) \<Rightarrow> 't::linorder message list \<Rightarrow> 't chats
     \<Rightarrow> py_exception + 't chats" where
  "latest_loop render [] chats = Inr chats"
| "latest_loop render (m # ms) chats =
     (if is_newer chats m
      then (case render (msg_content m) of
              Inl e \<Rightarrow> Inl e
            | Inr t \<Rightarrow> latest_loop render ms (AList.update (msg_chat m) (new_entry m t) chats))
      else latest_loop render ms chats)"

text \<open>\<^verbatim>\<open>not message["is_read"] and not message[...]["is_from_me"]\<close>.\<close>

definition is_unread :: "'t message \<Rightarrow> bool" where
  "is_unread m = (\<not> msg_is_read m \<and> \<not> msg_is_from_me m)"

text \<open>
  The second loop ("count unread messages"):
  \<^verbatim>\<open>chats[chat_id]["unread_count"] += 1\<close>, a \<^verbatim>\<open>KeyError\<close> if the chat has no entry.
\<close>

fun unread_loop :: "'t message list \<Rightarrow> 't chats \<Rightarrow> py_exception + 't chats" where
  "unread_loop [] chats = Inr chats"
| "unread_loop (m # ms) chats =
     (if is_unread m
      then (case map_of chats (msg_chat m) of
              None \<Rightarrow> Inl KeyError
            | Some s \<Rightarrow>
                unread_loop ms
                  (AList.update (msg_chat m) (s\<lparr>unread_count := unread_count s + 1\<rparr>) chats))
      else unread_loop ms chats)"

text \<open>Both loops from the empty dict, then \<^verbatim>\<open>list(chats.values())\<close>.\<close>

definition summarize ::
  "(content \<Rightarrow> py_exception + text_value) \<Rightarrow> 't::linorder message list
     \<Rightarrow> py_exception + 't chat_summary list" where
  "summarize render messages =
     (case latest_loop render messages [] of
        Inl e \<Rightarrow> Inl e
      | Inr chats \<Rightarrow>
          (case unread_loop messages chats of
             Inl e \<Rightarrow> Inl e
           | Inr chats' \<Rightarrow> Inr (map snd chats')))"

text \<open>The aggregation of \<^verbatim>\<open>whatsapp_api.py\<close>, lines 201 to 220.\<close>

definition get_chats_summaries ::
  "'t::linorder message list \<Rightarrow> py_exception + 't chat_summary list" where
  "get_chats_summaries messages = summarize text_or_placeholder messages"

text \<open>The aggregation of \<^verbatim>\<open>whatsapp_api_multisession.py\<close>, lines 364 to 383.\<close>

definition ms_get_chats_summaries ::
  "'t::linorder message list \<Rightarrow> py_exception + 't chat_summary list" where
  "ms_get_chats_summaries messages = summarize text_get_default messages"

section \<open>The backend and the outbound call\<close>

text \<open>
  A decoded JSON value, as \<^verbatim>\<open>response.json()\<close> returns it (numbers are integers here).
\<close>

datatype json =
    JNull
  | JBool bool
  | JNumber int
  | JString pystr
  | JArray "json list"
  | JObject "(string \<times> json) list"

datatype http_method = GET | POST | DELETE

text \<open>An outbound request: method, URL, the \<^verbatim>\<open>json=\<close> body and the \<^verbatim>\<open>params=\<close> query.\<close>

record request =
  req_method :: http_method
  req_url :: pystr
  req_json :: "json option"
  req_params :: "(string \<times> int) list"

text \<open>
  What the gateway reads of a backend response: \<^verbatim>\<open>status_code\<close>, \<^verbatim>\<open>text\<close>, \<^verbatim>\<open>json()\<close> and,
  for the chat listing, the entries of \<^verbatim>\<open>json().get("messages", [])\<close> as message records.
  The backend is taken to answer with JSON bodies, so that \<^verbatim>\<open>json()\<close> returns a value.
\<close>

record 't response =
  status_code :: int
  resp_text :: string
  resp_json :: json
  resp_messages :: "'t message list"

text \<open>
  The outcome of one \<^verbatim>\<open>client.get\<close>/\<^verbatim>\<open>post\<close>/\<^verbatim>\<open>delete\<close>: a response, an
  \<^verbatim>\<open>httpx.RequestError\<close> (the transport failed), or some other exception.
\<close>

datatype transport_failure = ConnectionRefused | Timeout | DnsFailure

datatype 't call_outcome =
    Responded "'t response"
  | RequestError transport_failure
  | OtherError

text \<open>
  The backend answers a request knowing the requests made before it; the log of requests
  is the only state the model threads through a handler.
\<close>

type_synonym 't backend = "request list \<Rightarrow> request \<Rightarrow> 't call_outcome"

text \<open>What a handler returns to the framework.\<close>

datatype 't payload =
    Body json
  | Message string
  | Chats "'t chat_summary list"
  | Health string string

type_synonym 't result = "py_exception + 't payload"

type_synonym 't handler = "'t backend \<Rightarrow> request list \<Rightarrow> 't result \<times> request list"

definition GO_SERVICE_URL :: string where
  "GO_SERVICE_URL = ''http://localhost:8080''"

definition http_get :: "pystr \<Rightarrow> request" where
  "http_get url = \<lparr>req_method = GET, req_url = url, req_json = None, req_params = []\<rparr>"

definition http_post :: "pystr \<Rightarrow> request" where
  "http_post url = \<lparr>req_method = POST, req_url = url, req_json = None, req_params = []\<rparr>"

definition http_delete :: "pystr \<Rightarrow> request" where
  "http_delete url = \<lparr>req_method = DELETE, req_url = url, req_json = None, req_params = []\<rparr>"

text \<open>
  The block every handler but the health check is made of:
  \<^verbatim>\<open>try: response = await client...; <status mapping>\<close>
  \<^verbatim>\<open>except httpx.RequestError: raise HTTPException(503, "Go service unavailable")\<close>.
  One request is sent; an exception that is no \<^verbatim>\<open>RequestError\<close> is not caught.
\<close>

definition guarded_call ::
  "request \<Rightarrow> ('t response \<Rightarrow> 't result) \<Rightarrow> 't handler" where
  "guarded_call rq on_response backend log =
     (case backend log rq of
        Responded response \<Rightarrow> (on_response response, log @ [rq])
      | RequestError f \<Rightarrow> (Inl (HTTPException 503 ''Go service unavailable''), log @ [rq])
      | OtherError \<Rightarrow> (Inl UncaughtException, log @ [rq]))"

text \<open>
  The first statement of every session-scoped handler,
  \<^verbatim>\<open>phone = validate_phone_number(phone)\<close>: a rejected identifier ends the handler before
  any request is sent.
\<close>

definition with_phone :: "pystr \<Rightarrow> (pystr \<Rightarrow> 't handler) \<Rightarrow> 't handler" where
  "with_phone phone body backend log =
     (case validate_phone_number phone of
        Inl e \<Rightarrow> (Inl e, log)
      | Inr phone' \<Rightarrow> body phone' backend log)"

text \<open>\<^verbatim>\<open>needle in haystack\<close> on strings.\<close>

fun contains :: "string \<Rightarrow> string \<Rightarrow> bool" where
  "contains needle [] = (needle = [])"
| "contains needle (c # cs) = (startswith (c # cs) needle \<or> contains needle cs)"

section \<open>Handlers of \<^verbatim>\<open>whatsapp_api.py\<close>\<close>

text \<open>\<^verbatim>\<open>PairPhoneRequest\<close> and \<^verbatim>\<open>ReadStatusUpdate\<close>, with their \<^verbatim>\<open>.dict()\<close>.\<close>

record pair_phone_request =
  phone_number :: pystr
  show_notification :: bool

record read_status_update =
  message_id :: pystr
  read :: bool

definition pair_phone_request_dict :: "pair_phone_request \<Rightarrow> json" where
  "pair_phone_request_dict p =
     JObject [(''phone_number'', JString (phone_number p)),
              (''show_notification'', JBool (show_notification p))]"

definition read_status_update_dict :: "read_status_update \<Rightarrow> json" where
  "read_status_update_dict u =
     JObject [(''message_id'', JString (message_id u)), (''read'', JBool (read u))]"

text \<open>
  \<^verbatim>\<open>health_check\<close>: the probe is sent inside \<^verbatim>\<open>try\<close>, and \<^verbatim>\<open>except Exception\<close> turns every
  exception of the call into the report "unhealthy". \<open>Health status service\<close> is the dict
  \<^verbatim>\<open>{"status": status, "go_service": service}\<close>.
\<close>

definition health_check :: "'t handler" where
  "health_check backend log =
     (let rq = http_get (str (GO_SERVICE_URL @ ''/auth/status''));
          returned =
            (case backend log rq of
               Responded response \<Rightarrow>
                 if status_code response = 200 then Inr (Health ''healthy'' ''running'')
                 else Inr (Health ''degraded'' ''issues'')
             | RequestError f \<Rightarrow> Inr (Health ''unhealthy'' ''down'')
             | OtherError \<Rightarrow> Inr (Health ''unhealthy'' ''down''))
      in (returned, log @ [rq]))"

definition get_qr_code :: "'t handler" where
  "get_qr_code =
     guarded_call (http_get (str (GO_SERVICE_URL @ ''/qr'')))
       (\<lambda>response.
          if status_code response = 200 then Inr (Body (resp_json response))
          else if status_code response = 400
          then Inl (HTTPException 400 ''Already authenticated'')
          else if status_code response = 408
          then Inl (HTTPException 408 ''QR generation timeout'')
          else Inl (HTTPException 500 ''Failed to get QR code''))"

definition get_auth_status :: "'t handler" where
  "get_auth_status =
     guarded_call (http_get (str (GO_SERVICE_URL @ ''/auth/status'')))
       (\<lambda>response.
          if status_code response = 200 then Inr (Body (resp_json response))
          else Inl (HTTPException 500 ''Failed to get auth status''))"

definition logout :: "'t handler" where
  "logout =
     guarded_call (http_post (str (GO_SERVICE_URL @ ''/auth/logout'')))
       (\<lambda>response.
          if status_code response = 200 then Inr (Message ''Logged out successfully'')
          else if status_code response = 400
          then Inl (HTTPException 400 ''Not authenticated'')
          else Inl (HTTPException 500 ''Failed to logout''))"

text \<open>The status mapping of \<^verbatim>\<open>pair_phone\<close> (lines 124 to 135).\<close>

definition pair_phone_response :: "'t response \<Rightarrow> 't result" where
  "pair_phone_response response =
     (if status_code response = 200 then Inr (Body (resp_json response))
      else if status_code response = 400
      then (let error_text = resp_text response
            in if contains ''Already authenticated'' error_text
               then Inl (HTTPException 400 ''Already authenticated'')
               else if contains ''Phone number is required'' error_text
               then Inl (HTTPException 400 ''Phone number is required'')
               else Inl (HTTPException 400 ''Invalid phone number format''))
      else Inl (HTTPException 500 ''Failed to generate pairing code''))"

definition pair_phone :: "pair_phone_request \<Rightarrow> 't handler" where
  "pair_phone pair_request =
     guarded_call
       ((http_post (str (GO_SERVICE_URL @ ''/auth/pair-phone'')))
          \<lparr>req_json := Some (pair_phone_request_dict pair_request)\<rparr>)
       pair_phone_response"

definition get_messages :: "'t handler" where
  "get_messages =
     guarded_call (http_get (str (GO_SERVICE_URL @ ''/messages'')))
       (\<lambda>response.
          if status_code response = 200 then Inr (Body (resp_json response))
          else if status_code response = 401
          then Inl (HTTPException 401 ''Not authenticated'')
          else Inl (HTTPException 500 ''Failed to get messages''))"

definition get_chat_messages :: "pystr \<Rightarrow> 't handler" where
  "get_chat_messages chat =
     guarded_call (http_get (str (GO_SERVICE_URL @ ''/messages/'') @ chat))
       (\<lambda>response.
          if status_code response = 200 then Inr (Body (resp_json response))
          else if status_code response = 401
          then Inl (HTTPException 401 ''Not authenticated'')
          else Inl (HTTPException 500 ''Failed to get chat messages''))"

definition update_read_status :: "read_status_update \<Rightarrow> 't handler" where
  "update_read_status read_status =
     guarded_call
       ((http_post (str (GO_SERVICE_URL @ ''/messages/read-status'')))
          \<lparr>req_json := Some (read_status_update_dict read_status)\<rparr>)
       (\<lambda>response.
          if status_code response = 200
          then Inr (Message ''Read status updated successfully'')
          else if status_code response = 401
          then Inl (HTTPException 401 ''Not authenticated'')
          else if status_code response = 404
          then Inl (HTTPException 404 ''Message not found'')
          else if status_code response = 400
          then Inl (HTTPException 400 ''Invalid request'')
          else Inl (HTTPException 500 ''Failed to update read status''))"

definition get_chats :: "'t::linorder handler" where
  "get_chats =
     guarded_call (http_get (str (GO_SERVICE_URL @ ''/messages'')))
       (\<lambda>response.
          if status_code response = 200
          then (case get_chats_summaries (resp_messages response) of
                  Inl e \<Rightarrow> Inl e
                | Inr chats \<Rightarrow> Inr (Chats chats))
          else if status_code response = 401
          then Inl (HTTPException 401 ''Not authenticated'')
          else Inl (HTTPException 500 ''Failed to get chats''))"

section \<open>Handlers of \<^verbatim>\<open>whatsapp_api_multisession.py\<close>\<close>

text \<open>
  Handlers whose name also occurs in \<^verbatim>\<open>whatsapp_api.py\<close> carry the prefix \<open>ms_\<close>.
\<close>

definition ms_health_check :: "'t handler" where
  "ms_health_check backend log =
     (let rq = http_get (str (GO_SERVICE_URL @ ''/sessions/list''));
          returned =
            (case backend log rq of
               Responded response \<Rightarrow>
                 if status_code response = 200 then Inr (Health ''healthy'' ''running'')
                 else Inr (Health ''degraded'' ''issues'')
             | RequestError f \<Rightarrow> Inr (Health ''unhealthy'' ''down'')
             | OtherError \<Rightarrow> Inr (Health ''unhealthy'' ''down''))
      in (returned, log @ [rq]))"

definition create_session :: "pystr \<Rightarrow> 't handler" where
  "create_session request_phone_number =
     with_phone request_phone_number (\<lambda>phone.
       guarded_call
         ((http_post (str (GO_SERVICE_URL @ ''/sessions/create'')))
            \<lparr>req_json := Some (JObject [(''phone_number'', JString phone)])\<rparr>)
         (\<lambda>response.
            if status_code response = 200 then Inr (Body (resp_json response))
            else Inl (HTTPException 500 ''Failed to create session'')))"

definition list_sessions :: "'t handler" where
  "list_sessions =
     guarded_call (http_get (str (GO_SERVICE_URL @ ''/sessions/list'')))
       (\<lambda>response.
          if status_code response = 200 then Inr (Body (resp_json response))
          else Inl (HTTPException 500 ''Failed to list sessions''))"

definition get_session_status :: "pystr \<Rightarrow> 't handler" where
  "get_session_status phone =
     with_phone phone (\<lambda>phone.
       guarded_call (http_get (str (GO_SERVICE_URL @ ''/sessions/'') @ phone @ str ''/status''))
         (\<lambda>response.
            if status_code response = 200 then Inr (Body (resp_json response))
            else if status_code response = 404
            then Inl (HTTPException 404 ''Session not found'')
            else Inl (HTTPException 500 ''Failed to get session status'')))"

definition connect_session :: "pystr \<Rightarrow> 't handler" where
  "connect_session phone =
     with_phone phone (\<lambda>phone.
       guarded_call (http_post (str (GO_SERVICE_URL @ ''/sessions/'') @ phone @ str ''/connect''))
         (\<lambda>response.
            if status_code response = 200 then Inr (Message ''Session connected successfully'')
            else if status_code response = 404
            then Inl (HTTPException 404 ''Session not found'')
            else Inl (HTTPException 500 ''Failed to connect session'')))"

definition disconnect_session :: "pystr \<Rightarrow> 't handler" where
  "disconnect_session phone =
     with_phone phone (\<lambda>phone.
       guarded_call (http_post (str (GO_SERVICE_URL @ ''/sessions/'') @ phone @ str ''/disconnect''))
         (\<lambda>response.
            if status_code response = 200
            then Inr (Message ''Session disconnected successfully'')
            else if status_code response = 404
            then Inl (HTTPException 404 ''Session not found'')
            else Inl (HTTPException 500 ''Failed to disconnect session'')))"

definition delete_session :: "pystr \<Rightarrow> 't handler" where
  "delete_session phone =
     with_phone phone (\<lambda>phone.
       guarded_call (http_delete (str (GO_SERVICE_URL @ ''/sessions/'') @ phone @ str ''/delete''))
         (\<lambda>response.
            if status_code response = 200 then Inr (Message ''Session deleted successfully'')
            else if status_code response = 404
            then Inl (HTTPException 404 ''Session not found'')
            else Inl (HTTPException 500 ''Failed to delete session'')))"

definition ms_get_qr_code :: "pystr \<Rightarrow> 't handler" where
  "ms_get_qr_code phone =
     with_phone phone (\<lambda>phone.
       guarded_call (http_get (str (GO_SERVICE_URL @ ''/sessions/'') @ phone @ str ''/qr''))
         (\<lambda>response.
            if status_code response = 200 then Inr (Body (resp_json response))
            else if status_code response = 400
            then Inl (HTTPException 400 ''Already authenticated or QR not available'')
            else if status_code response = 404
            then Inl (HTTPException 404 ''Session not found'')
            else Inl (HTTPException 500 ''Failed to get QR code'')))"

definition ms_get_auth_status :: "pystr \<Rightarrow> 't handler" where
  "ms_get_auth_status phone =
     with_phone phone (\<lambda>phone.
       guarded_call (http_get (str (GO_SERVICE_URL @ ''/sessions/'') @ phone @ str ''/auth/status''))
         (\<lambda>response.
            if status_code response = 200 then Inr (Body (resp_json response))
            else if status_code response = 404
            then Inl (HTTPException 404 ''Session not found'')
            else Inl (HTTPException 500 ''Failed to get auth status'')))"

text \<open>The status mapping of the session-scoped \<^verbatim>\<open>pair_phone\<close> (lines 257 to 268).\<close>

definition ms_pair_phone_response :: "'t response \<Rightarrow> 't result" where
  "ms_pair_phone_response response =
     (if status_code response = 200 then Inr (Body (resp_json response))
      else if status_code response = 400
      then (let error_text = resp_text response
            in if contains ''Already authenticated'' error_text
               then Inl (HTTPException 400 ''Already authenticated'')
               else Inl (HTTPException 400 ''Failed to generate pairing code''))
      else if status_code response = 404
      then Inl (HTTPException 404 ''Session not found'')
      else Inl (HTTPException 500 ''Failed to generate pairing code''))"

definition ms_pair_phone :: "pystr \<Rightarrow> pair_phone_request option \<Rightarrow> 't handler" where
  "ms_pair_phone phone pair_request =
     with_phone phone (\<lambda>phone.
       let request_data =
             JObject [(''phone_number'', JString phone),
                      (''show_notification'',
                       JBool (case pair_request of
                                Some p \<Rightarrow> show_notification p
                              | None \<Rightarrow> True))]
       in guarded_call
            ((http_post (str (GO_SERVICE_URL @ ''/sessions/'') @ phone @ str ''/auth/pair-phone''))
               \<lparr>req_json := Some request_data\<rparr>)
            ms_pair_phone_response)"

definition ms_get_messages :: "pystr \<Rightarrow> int \<Rightarrow> 't handler" where
  "ms_get_messages phone limit =
     with_phone phone (\<lambda>phone.
       guarded_call
         ((http_get (str (GO_SERVICE_URL @ ''/sessions/'') @ phone @ str ''/messages''))
            \<lparr>req_params := [(''limit'', limit)]\<rparr>)
         (\<lambda>response.
            if status_code response = 200 then Inr (Body (resp_json response))
            else if status_code response = 404
            then Inl (HTTPException 404 ''Session not found'')
            else Inl (HTTPException 500 ''Failed to get messages'')))"

definition ms_get_chat_messages :: "pystr \<Rightarrow> pystr \<Rightarrow> int \<Rightarrow> 't handler" where
  "ms_get_chat_messages phone chat limit =
     with_phone phone (\<lambda>phone.
       guarded_call
         ((http_get (str (GO_SERVICE_URL @ ''/sessions/'') @ phone @ str ''/messages/'' @ chat))
            \<lparr>req_params := [(''limit'', limit)]\<rparr>)
         (\<lambda>response.
            if status_code response = 200 then Inr (Body (resp_json response))
            else if status_code response = 404
            then Inl (HTTPException 404 ''Session or chat not found'')
            else Inl (HTTPException 500 ''Failed to get chat messages'')))"

definition ms_update_read_status :: "pystr \<Rightarrow> read_status_update \<Rightarrow> 't handler" where
  "ms_update_read_status phone read_status =
     with_phone phone (\<lambda>phone.
       guarded_call
         ((http_post (str (GO_SERVICE_URL @ ''/sessions/'') @ phone @ str ''/messages/read-status''))
            \<lparr>req_json := Some (read_status_update_dict read_status)\<rparr>)
         (\<lambda>response.
            if status_code response = 200
            then Inr (Message ''Read status updated successfully'')
            else if status_code response = 404
            then Inl (HTTPException 404 ''Session or message not found'')
            else if status_code response = 400
            then Inl (HTTPException 400 ''Invalid request'')
            else Inl (HTTPException 500 ''Failed to update read status'')))"

definition get_unread_count :: "pystr \<Rightarrow> 't handler" where
  "get_unread_count phone =
     with_phone phone (\<lambda>phone.
       guarded_call
         (http_get (str (GO_SERVICE_URL @ ''/sessions/'') @ phone @ str ''/messages/unread-count''))
         (\<lambda>response.
            if status_code response = 200 then Inr (Body (resp_json response))
            else if status_code response = 404
            then Inl (HTTPException 404 ''Session not found'')
            else Inl (HTTPException 500 ''Failed to get unread count'')))"

definition ms_get_chats :: "pystr \<Rightarrow> 't::linorder handler" where
  "ms_get_chats phone =
     with_phone phone (\<lambda>phone.
       guarded_call (http_get (str (GO_SERVICE_URL @ ''/sessions/'') @ phone @ str ''/messages''))
         (\<lambda>response.
            if status_code response = 200
            then (case ms_get_chats_summaries (resp_messages response) of
                    Inl e \<Rightarrow> Inl e
                  | Inr chats \<Rightarrow> Inr (Chats chats))
            else if status_code response = 404
            then Inl (HTTPException 404 ''Session not found'')
            else Inl (HTTPException 500 ''Failed to get chats'')))"

subsection \<open>The legacy handlers\<close>

text \<open>
  \<^verbatim>\<open>sessions_response = await list_sessions()\<close> calls the coroutine directly, so
  \<open>sessions_response\<close> is what \<^verbatim>\<open>list_sessions\<close> returns, the decoded JSON value of the
  backend's reply (\<^verbatim>\<open>response_model\<close> shapes the HTTP reply of a route, not the value
  of a direct call). \<^verbatim>\<open>sessions_response.sessions\<close> is an attribute access on that
  value, and no decoded JSON value (dict, list, str, int, bool, None) has an attribute
  \<^verbatim>\<open>sessions\<close>: the access raises \<^verbatim>\<open>AttributeError\<close>.
\<close>

definition getattr_sessions :: "'t payload \<Rightarrow> py_exception + json" where
  "getattr_sessions sessions_response = Inl AttributeError"

text \<open>Python's truth value of a decoded JSON value (\<^verbatim>\<open>not sessions\<close>).\<close>

fun truthy :: "json \<Rightarrow> bool" where
  "truthy JNull = False"
| "truthy (JBool b) = b"
| "truthy (JNumber n) = (n \<noteq> 0)"
| "truthy (JString s) = (s \<noteq> [])"
| "truthy (JArray xs) = (xs \<noteq> [])"
| "truthy (JObject kvs) = (kvs \<noteq> [])"

text \<open>
  \<^verbatim>\<open>sessions[0]["phone_number"]\<close>, as the string that \<^verbatim>\<open>validate_phone_number\<close> then
  receives (\<^verbatim>\<open>re.sub\<close> raises \<^verbatim>\<open>TypeError\<close> on a value that is no string). An empty list
  or string has no index 0, a dict decoded from JSON has no key 0, and only a dict can be
  subscripted with a string.
\<close>

fun first_phone_number :: "json \<Rightarrow> py_exception + pystr" where
  "first_phone_number (JArray (JObject kvs # rest)) =
     (case map_of kvs ''phone_number'' of
        None \<Rightarrow> Inl KeyError
      | Some (JString phone) \<Rightarrow> Inr phone
      | Some _ \<Rightarrow> Inl TypeError)"
| "first_phone_number (JArray []) = Inl IndexError"
| "first_phone_number (JString []) = Inl IndexError"
| "first_phone_number (JObject kvs) = Inl KeyError"
| "first_phone_number _ = Inl TypeError"

definition legacy_get_auth_status :: "'t handler" where
  "legacy_get_auth_status backend log =
     (case list_sessions backend log of
        (Inl e, log') \<Rightarrow> (Inl e, log')
      | (Inr sessions_response, log') \<Rightarrow>
          (case getattr_sessions sessions_response of
             Inl e \<Rightarrow> (Inl e, log')
           | Inr sessions \<Rightarrow>
               if \<not> truthy sessions
               then (Inl (HTTPException 404 ''No sessions available''), log')
               else (case first_phone_number sessions of
                       Inl e \<Rightarrow> (Inl e, log')
                     | Inr first_phone \<Rightarrow> ms_get_auth_status first_phone backend log')))"

definition legacy_get_messages :: "'t handler" where
  "legacy_get_messages backend log =
     (case list_sessions backend log of
        (Inl e, log') \<Rightarrow> (Inl e, log')
      | (Inr sessions_response, log') \<Rightarrow>
          (case getattr_sessions sessions_response of
             Inl e \<Rightarrow> (Inl e, log')
           | Inr sessions \<Rightarrow>
               if \<not> truthy sessions
               then (Inl (HTTPException 404 ''No sessions available''), log')
               else (case first_phone_number sessions of
                       Inl e \<Rightarrow> (Inl e, log')
                     | Inr first_phone \<Rightarrow> ms_get_messages first_phone 50 backend log')))"

section \<open>The routes of the two applications\<close>

datatype operation =
    GetQrCode
  | GetAuthStatus
  | Logout
  | PairPhone pair_phone_request
  | GetMessages
  | GetChatMessages pystr
  | UpdateReadStatus read_status_update
  | GetChats
  | CreateSession pystr
  | ListSessions
  | GetSessionStatus pystr
  | ConnectSession pystr
  | DisconnectSession pystr
  | DeleteSession pystr
  | MsGetQrCode pystr
  | MsGetAuthStatus pystr
  | MsPairPhone pystr "pair_phone_request option"
  | MsGetMessages pystr int
  | MsGetChatMessages pystr pystr int
  | MsUpdateReadStatus pystr read_status_update
  | GetUnreadCount pystr
  | MsGetChats pystr
  | LegacyGetAuthStatus
  | LegacyGetMessages

fun handle :: "operation \<Rightarrow> 't::linorder handler" where
  "handle GetQrCode = get_qr_code"
| "handle GetAuthStatus = get_auth_status"
| "handle Logout = logout"
| "handle (PairPhone pair_request) = pair_phone pair_request"
| "handle GetMessages = get_messages"
| "handle (GetChatMessages chat) = get_chat_messages chat"
| "handle (UpdateReadStatus read_status) = update_read_status read_status"
| "handle GetChats = get_chats"
| "handle (CreateSession phone) = create_session phone"
| "handle ListSessions = list_sessions"
| "handle (GetSessionStatus phone) = get_session_status phone"
| "handle (ConnectSession phone) = connect_session phone"
| "handle (DisconnectSession phone) = disconnect_session phone"
| "handle (DeleteSession phone) = delete_session phone"
| "handle (MsGetQrCode phone) = ms_get_qr_code phone"
| "handle (MsGetAuthStatus phone) = ms_get_auth_status phone"
| "handle (MsPairPhone phone pair_request) = ms_pair_phone phone pair_request"
| "handle (MsGetMessages phone limit) = ms_get_messages phone limit"
| "handle (MsGetChatMessages phone chat limit) = ms_get_chat_messages phone chat limit"
| "handle (MsUpdateReadStatus phone read_status) = ms_update_read_status phone read_status"
| "handle (GetUnreadCount phone) = get_unread_count phone"
| "handle (MsGetChats phone) = ms_get_chats phone"
| "handle LegacyGetAuthStatus = legacy_get_auth_status"
| "handle LegacyGetMessages = legacy_get_messages"

section \<open>The outcome taxonomy of the specification\<close>

text \<open>
  The specification names the results of a handler by a taxonomy \<open>DomainOutcome\<close>
  (its section 3); the handlers raise \<^verbatim>\<open>HTTPException\<close> instead. \<open>outcome_of\<close> reads a
  handler's result in that taxonomy by its status code, keeping the detail as the
  reason; \<open>Fault\<close> is an exception that is none of the specification's outcomes.
\<close>

datatype 't domain_outcome =
    Success "'t payload"
  | NotAuthenticated
  | AlreadyAuthenticated
  | NotFound string
  | InvalidRequest string
  | BackendUnavailable
  | BackendError
  | Fault py_exception

fun outcome_of :: "'t result \<Rightarrow> 't domain_outcome" where
  "outcome_of (Inr p) = Success p"
| "outcome_of (Inl (HTTPException status detail)) =
     (if status = 400
      then (if detail = ''Already authenticated'' then AlreadyAuthenticated
            else if detail = ''Not authenticated'' then NotAuthenticated
            else InvalidRequest detail)
      else if status = 401 then NotAuthenticated
      else if status = 404 then NotFound detail
      else if status = 503 then BackendUnavailable
      else BackendError)"
| "outcome_of (Inl e) = Fault e"

text \<open>
  The pair-phone table as the specification states it (its section 4.3), read top to
  bottom, to be compared with \<open>pair_phone_response\<close> and \<open>ms_pair_phone_response\<close>.
  The reasons are written as the details with which the gateway reports them
  (\<^verbatim>\<open>NotFound("session")\<close> is "Session not found").
\<close>

definition pair_phone_table :: "'t response \<Rightarrow> 't domain_outcome" where
  "pair_phone_table response =
     (if status_code response = 200 then Success (Body (resp_json response))
      else if status_code response = 400
      then (if contains ''Already authenticated'' (resp_text response)
            then AlreadyAuthenticated
            else if contains ''Phone number is required'' (resp_text response)
            then InvalidRequest ''Phone number is required''
            else InvalidRequest ''Invalid phone number format'')
      else if status_code response = 404 then NotFound ''Session not found''
      else BackendError)"

section \<open>Auxiliary notions of the proofs\<close>

text \<open>
  \<open>picked c xs m\<close>: \<open>m\<close> is the message of chat \<open>c\<close> in \<open>xs\<close> that no message of the
  chat exceeds and that no earlier message of the chat equals in timestamp.
\<close>

definition picked :: "string \<Rightarrow> 't::linorder message list \<Rightarrow> 't message \<Rightarrow> bool" where
  "picked c xs m =
     (\<exists>pre post. xs = pre @ m # post \<and> msg_chat m = c \<and>
        (\<forall>x\<in>set pre. msg_chat x = c \<longrightarrow> msg_timestamp x < msg_timestamp m) \<and>
        (\<forall>x\<in>set post. msg_chat x = c \<longrightarrow> msg_timestamp x \<le> msg_timestamp m))"

text \<open>The state of \<open>chats\<close> after the first loop has processed \<open>xs\<close>.\<close>

definition latest_inv ::
  "(content \<Rightarrow> py_exception + text_value) \<Rightarrow> 't::linorder message list \<Rightarrow> 't chats \<Rightarrow> bool" where
  "latest_inv r xs chats =
     (distinct (map fst chats) \<and>
      (\<forall>c. (map_of chats c = None) = (c \<notin> msg_chat ` set xs)) \<and>
      (\<forall>c s. map_of chats c = Some s \<longrightarrow>
         (\<exists>m t. picked c xs m \<and> r (msg_content m) = Inr t \<and> s = new_entry m t)))"

definition unread_in :: "string \<Rightarrow> 't message list \<Rightarrow> int" where
  "unread_in c ms = int (length (filter (\<lambda>m. msg_chat m = c \<and> is_unread m) ms))"

section \<open>Example inputs\<close>

definition example_messages :: "nat message list" where
  "example_messages =
     [\<lparr>msg_chat = ''a'', msg_is_group = False,
       msg_content = \<lparr>content_text = Some (PyStr ''first''), content_type = ''text''\<rparr>,
       msg_timestamp = 2, msg_is_read = False, msg_is_from_me = False\<rparr>,
      \<lparr>msg_chat = ''b'', msg_is_group = True,
       msg_content = \<lparr>content_text = Some (PyStr ''other''), content_type = ''text''\<rparr>,
       msg_timestamp = 5, msg_is_read = False, msg_is_from_me = True\<rparr>,
      \<lparr>msg_chat = ''a'', msg_is_group = False,
       msg_content = \<lparr>content_text = Some (PyStr ''second''), content_type = ''text''\<rparr>,
       msg_timestamp = 2, msg_is_read = True, msg_is_from_me = False\<rparr>,
      \<lparr>msg_chat = ''a'', msg_is_group = False,
       msg_content = \<lparr>content_text = Some (PyStr ''old''), content_type = ''text''\<rparr>,
       msg_timestamp = 1, msg_is_read = False, msg_is_from_me = False\<rparr>]"

text \<open>Three messages of one chat at the timestamps 1, 2 and 3.\<close>

definition three_messages :: "nat message list" where
  "three_messages =
     [\<lparr>msg_chat = ''a'', msg_is_group = False,
       msg_content = \<lparr>content_text = Some (PyStr ''one''), content_type = ''text''\<rparr>,
       msg_timestamp = 1, msg_is_read = True, msg_is_from_me = False\<rparr>,
      \<lparr>msg_chat = ''a'', msg_is_group = False,
       msg_content = \<lparr>content_text = Some (PyStr ''two''), content_type = ''text''\<rparr>,
       msg_timestamp = 2, msg_is_read = True, msg_is_from_me = False\<rparr>,
      \<lparr>msg_chat = ''a'', msg_is_group = False,
       msg_content = \<lparr>content_text = Some (PyStr ''three''), content_type = ''text''\<rparr>,
       msg_timestamp = 3, msg_is_read = True, msg_is_from_me = False\<rparr>]"

text \<open>A media message whose content has a null text, and one whose text is empty.\<close>

definition null_text_message :: "nat message" where
  "null_text_message =
     \<lparr>msg_chat = ''a'', msg_is_group = False,
      msg_content = \<lparr>content_text = Some PyNone, content_type = ''image''\<rparr>,
      msg_timestamp = 1, msg_is_read = True, msg_is_from_me = False\<rparr>"

definition empty_text_message :: "nat message" where
  "empty_text_message =
     \<lparr>msg_chat = ''a'', msg_is_group = False,
      msg_content = \<lparr>content_text = Some (PyStr []), content_type = ''image''\<rparr>,
      msg_timestamp = 1, msg_is_read = True, msg_is_from_me = False\<rparr>"

text \<open>A backend that answers every request with status 200 and an empty session list.\<close>

definition no_sessions_backend :: "nat backend" where
  "no_sessions_backend log rq =
     Responded \<lparr>status_code = 200, resp_text = ''{\"sessions\": []}'',
                resp_json = JObject [(''sessions'', JArray [])], resp_messages = []\<rparr>"

text \<open>A backend that cannot be reached.\<close>

definition unreachable_backend :: "nat backend" where
  "unreachable_backend log rq = RequestError ConnectionRefused"

section \<open>Properties of identifier normalisation\<close>

lemma separator_iff:
  "is_separator c = (is_space c \<or> c = 45 \<or> c = 40 \<or> c = 41 \<or> c = 43)"
  by (auto simp: is_separator_def str_def)

lemma nonzero_digit_iff: "d \<in> set (str ''123456789'') \<longleftrightarrow> 49 \<le> d \<and> d \<le> 57"
  by (simp add: str_def) arith

lemma ascii_digit_iff: "c \<in> set (str ''0123456789'') \<longleftrightarrow> 48 \<le> c \<and> c \<le> 57"
  by (simp add: str_def) arith

lemmas validate_eval =
  validate_phone_number_def strip_separators_def separator_iff is_space_def startswith_def
  str_def match_international_def is_digit_def decimal_digit_blocks_def Let_def

lemma newline_is_separator: "is_separator (of_char (CHR 0x0A))"
  by (simp add: separator_iff is_space_def)

lemma strip_separators_clean: "c \<in> set (strip_separators raw) \<Longrightarrow> \<not> is_separator c"
  by (simp add: strip_separators_def)

lemma plus_is_separator: "is_separator (of_char CHR ''+'')"
  by (simp add: separator_iff)

lemma strip_not_plus: "\<not> startswith (strip_separators raw) (str ''+'')"
proof
  assume "startswith (strip_separators raw) (str ''+'')"
  then have "take 1 (strip_separators raw) = [of_char CHR ''+'']"
    by (simp add: startswith_def str_def)
  then have "of_char CHR ''+'' \<in> set (strip_separators raw)"
    by (cases "strip_separators raw") auto
  then show False using strip_separators_clean plus_is_separator by blast
qed

lemma clean_no_newline_match:
  assumes "\<forall>c\<in>set rest. \<not> is_separator c"
  shows "match_international (of_char CHR ''+'' # rest) =
         international_body (of_char CHR ''+'' # rest)"
proof (cases rest rule: rev_cases)
  case Nil
  then show ?thesis by (simp add: match_international_def)
next
  case (snoc ys y)
  then have "y \<noteq> of_char (CHR 0x0A)" using assms newline_is_separator by auto
  then show ?thesis using snoc by (simp add: match_international_def)
qed

lemma validate_shape:
  "\<exists>rest. (\<forall>c\<in>set rest. \<not> is_separator c) \<and>
     validate_phone_number raw =
       (if international_body (of_char CHR ''+'' # rest) then Inr (of_char CHR ''+'' # rest)
        else Inl (HTTPException 400 ''Invalid international phone number format''))"
proof (cases "startswith (strip_separators raw) (str ''00'')")
  case True
  let ?rest = "drop 2 (strip_separators raw)"
  have c: "\<forall>c\<in>set ?rest. \<not> is_separator c"
    using strip_separators_clean in_set_dropD by fast
  have "validate_phone_number raw =
       (if international_body (of_char CHR ''+'' # ?rest) then Inr (of_char CHR ''+'' # ?rest)
        else Inl (HTTPException 400 ''Invalid international phone number format''))"
    using True clean_no_newline_match[OF c] by (simp add: validate_phone_number_def Let_def)
  with c show ?thesis by blast
next
  case False
  let ?rest = "strip_separators raw"
  have c: "\<forall>c\<in>set ?rest. \<not> is_separator c"
    using strip_separators_clean by blast
  have "validate_phone_number raw =
       (if international_body (of_char CHR ''+'' # ?rest) then Inr (of_char CHR ''+'' # ?rest)
        else Inl (HTTPException 400 ''Invalid international phone number format''))"
    using False strip_not_plus clean_no_newline_match[OF c]
    by (simp add: validate_phone_number_def Let_def)
  with c show ?thesis by blast
qed

text \<open>
  What \<open>validate_phone_number\<close> does return for every raw input: a \<^verbatim>\<open>+\<close>, a digit 1 to
  9, then 1 to 14 characters that \<^verbatim>\<open>\d\<close> matches, none of them a separator, or the 400
  error; and \<^verbatim>\<open>0044123456789\<close> gives \<^verbatim>\<open>+44123456789\<close>.
\<close>

lemma validate_phone_number_shape:
  "((\<exists>d ds. validate_phone_number raw = Inr (of_char CHR ''+'' # d # ds) \<and>
        d \<in> set (str ''123456789'') \<and> 1 \<le> length ds \<and> length ds \<le> 14 \<and>
        list_all is_digit ds \<and> list_all (\<lambda>c. \<not> is_separator c) (d # ds)) \<or>
     validate_phone_number raw =
       Inl (HTTPException 400 ''Invalid international phone number format'')) \<and>
   validate_phone_number (str ''0044123456789'') = Inr (str ''+44123456789'')"
proof -
  obtain rest where c: "\<forall>c\<in>set rest. \<not> is_separator c"
    and v: "validate_phone_number raw =
       (if international_body (of_char CHR ''+'' # rest) then Inr (of_char CHR ''+'' # rest)
        else Inl (HTTPException 400 ''Invalid international phone number format''))"
    using validate_shape by blast
  have 1: "(\<exists>d ds. validate_phone_number raw = Inr (of_char CHR ''+'' # d # ds) \<and>
        d \<in> set (str ''123456789'') \<and> 1 \<le> length ds \<and> length ds \<le> 14 \<and>
        list_all is_digit ds \<and> list_all (\<lambda>c. \<not> is_separator c) (d # ds)) \<or>
     validate_phone_number raw =
       Inl (HTTPException 400 ''Invalid international phone number format'')"
  proof (cases "international_body (of_char CHR ''+'' # rest)")
    case True
    then obtain d ds where r: "rest = d # ds" by (cases rest) auto
    have "list_all (\<lambda>c. \<not> is_separator c) (d # ds)"
      using c r by (simp add: list_all_iff)
    then show ?thesis using True v r by auto
  next
    case False
    then show ?thesis using v by simp
  qed
  have 2: "validate_phone_number (str ''0044123456789'') = Inr (str ''+44123456789'')"
    by (simp add: validate_eval)
  from 1 2 show ?thesis by blast
qed

text \<open>On ASCII input the digits of a returned identifier are \<^verbatim>\<open>0\<close> to \<^verbatim>\<open>9\<close>.\<close>

lemma ascii_digit: "is_digit c \<Longrightarrow> c < 128 \<Longrightarrow> c \<in> set (str ''0123456789'')"
  unfolding ascii_digit_iff by (auto simp: is_digit_def decimal_digit_blocks_def)

lemma validate_phone_number_ascii:
  assumes "\<forall>c\<in>set raw. c < 128" and "validate_phone_number raw = Inr y"
  shows "\<exists>d ds. y = of_char CHR ''+'' # d # ds \<and> d \<in> set (str ''123456789'') \<and>
           list_all (\<lambda>c. c \<in> set (str ''0123456789'')) ds"
proof -
  have sub: "set (strip_separators raw) \<subseteq> set raw" by (auto simp: strip_separators_def)
  have "tl y = strip_separators raw \<or> tl y = drop 2 (strip_separators raw)"
    using assms(2) strip_not_plus[of raw]
    by (auto simp: validate_phone_number_def Let_def split: if_splits)
  then have "set (tl y) \<subseteq> set (strip_separators raw)"
    by (auto dest: in_set_dropD)
  then have small: "\<forall>c\<in>set (tl y). c < 128"
    using assms(1) sub by blast
  from validate_phone_number_shape[of raw] assms(2)
  obtain d ds where s: "y = of_char CHR ''+'' # d # ds" "d \<in> set (str ''123456789'')"
    "list_all is_digit ds"
    by auto
  have "list_all (\<lambda>c. c \<in> set (str ''0123456789'')) ds"
    unfolding list_all_iff
  proof
    fix c assume "c \<in> set ds"
    then have "is_digit c" "c < 128" using s(1,3) small by (auto simp: list_all_iff)
    then show "c \<in> set (str ''0123456789'')" by (rule ascii_digit)
  qed
  then show ?thesis using s by blast
qed

text \<open>
  Claim C4. The input \<^verbatim>\<open>+1\<close> followed by the Arabic-Indic digits two and three (U+0662,
  U+0663) is neither rejected nor brought to the canonical form: it is returned as it
  is, an identifier whose last two characters are not digits \<^verbatim>\<open>0\<close> to \<^verbatim>\<open>9\<close>.
\<close>

theorem validate_phone_number_accepts_non_ascii_digits:
  "validate_phone_number (str ''+1'' @ [0x662, 0x663]) = Inr (str ''+1'' @ [0x662, 0x663]) \<and>
   \<not> list_all (\<lambda>c. c \<in> set (str ''0123456789'')) [0x662, 0x663]"
  by (simp add: validate_eval)

text \<open>
  Claim C5. Normalisation is idempotent: an identifier that \<open>validate_phone_number\<close>
  returns is accepted by it again and returned unchanged.
\<close>

theorem validate_phone_number_idempotent:
  assumes "validate_phone_number x = Inr y"
  shows "validate_phone_number y = Inr y"
proof -
  obtain rest where c: "\<forall>c\<in>set rest. \<not> is_separator c"
    and v: "validate_phone_number x =
       (if international_body (of_char CHR ''+'' # rest) then Inr (of_char CHR ''+'' # rest)
        else Inl (HTTPException 400 ''Invalid international phone number format''))"
    using validate_shape by blast
  from assms v have b: "international_body (of_char CHR ''+'' # rest)"
    and y: "y = 43 # rest"
    by (auto split: if_splits)
  from b obtain d ds where r: "rest = d # ds" and d: "d \<in> set (str ''123456789'')"
    by (cases rest) auto
  have s: "strip_separators y = rest"
    using c plus_is_separator by (simp add: y strip_separators_def)
  have n: "\<not> startswith rest (str ''+'')" "\<not> startswith rest (str ''00'')"
    using d r by (auto simp: startswith_def nonzero_digit_iff str_def)
  have m: "match_international (of_char CHR ''+'' # rest)"
    using b by (simp add: match_international_def)
  show ?thesis
    using s n m by (simp add: validate_phone_number_def y[symmetric] Let_def)
qed

theorem validate_phone_number_idempotent_witness:
  "validate_phone_number (str ''+1 (415) 555-0100'') = Inr (str ''+14155550100'') \<and>
   validate_phone_number (str ''+14155550100'') = Inr (str ''+14155550100'')"
proof -
  have h: "validate_phone_number (str ''+1 (415) 555-0100'') = Inr (str ''+14155550100'')"
    by (simp add: validate_eval)
  show ?thesis using h validate_phone_number_idempotent [OF h] by simp
qed

section \<open>Properties of the chat aggregation\<close>

lemma latest_loop_append:
  "latest_loop r (xs @ ys) chats =
     (case latest_loop r xs chats of Inl e \<Rightarrow> Inl e | Inr chats' \<Rightarrow> latest_loop r ys chats')"
  by (induction xs arbitrary: chats) (auto split: sum.splits)

lemma picked_snoc_keep:
  assumes "picked c xs m" and "msg_chat x = c \<longrightarrow> msg_timestamp x \<le> msg_timestamp m"
  shows "picked c (xs @ [x]) m"
proof -
  from assms(1) obtain pre post where p: "xs = pre @ m # post" "msg_chat m = c"
    "\<forall>x\<in>set pre. msg_chat x = c \<longrightarrow> msg_timestamp x < msg_timestamp m"
    "\<forall>x\<in>set post. msg_chat x = c \<longrightarrow> msg_timestamp x \<le> msg_timestamp m"
    unfolding picked_def by blast
  have "xs @ [x] = pre @ m # (post @ [x])" using p(1) by simp
  moreover have "\<forall>y\<in>set (post @ [x]). msg_chat y = c \<longrightarrow> msg_timestamp y \<le> msg_timestamp m"
    using p(4) assms(2) by auto
  ultimately show ?thesis unfolding picked_def using p(2,3) by blast
qed

lemma picked_snoc_new:
  assumes "picked c xs m" and "msg_chat x = c" and "msg_timestamp m < msg_timestamp x"
  shows "picked c (xs @ [x]) x"
proof -
  from assms(1) obtain pre post where p: "xs = pre @ m # post" "msg_chat m = c"
    "\<forall>x\<in>set pre. msg_chat x = c \<longrightarrow> msg_timestamp x < msg_timestamp m"
    "\<forall>x\<in>set post. msg_chat x = c \<longrightarrow> msg_timestamp x \<le> msg_timestamp m"
    unfolding picked_def by blast
  have "msg_timestamp y < msg_timestamp x" if "y \<in> set xs" "msg_chat y = c" for y
  proof -
    from that(1) p(1) consider "y \<in> set pre" | "y = m" | "y \<in> set post" by auto
    then show ?thesis
    proof cases
      case 1
      then have "msg_timestamp y < msg_timestamp m" using p(3) that(2) by blast
      then show ?thesis using assms(3) by (rule less_trans)
    next
      case 2
      then show ?thesis using assms(3) by simp
    next
      case 3
      then have "msg_timestamp y \<le> msg_timestamp m" using p(4) that(2) by blast
      then show ?thesis using assms(3) by (rule le_less_trans)
    qed
  qed
  then have "\<forall>y\<in>set xs. msg_chat y = c \<longrightarrow> msg_timestamp y < msg_timestamp x"
    by blast
  then have "xs @ [x] = xs @ x # [] \<and> msg_chat x = c \<and>
     (\<forall>y\<in>set xs. msg_chat y = c \<longrightarrow> msg_timestamp y < msg_timestamp x) \<and>
     (\<forall>y\<in>set []. msg_chat y = c \<longrightarrow> msg_timestamp y \<le> msg_timestamp x)"
    using assms(2) by simp
  then show ?thesis unfolding picked_def by blast
qed

lemma picked_snoc_first:
  assumes "c \<notin> msg_chat ` set xs" and "msg_chat x = c"
  shows "picked c (xs @ [x]) x"
proof -
  have "\<forall>y\<in>set xs. msg_chat y \<noteq> c" using assms(1) by blast
  then have "xs @ [x] = xs @ x # [] \<and> msg_chat x = c \<and>
     (\<forall>y\<in>set xs. msg_chat y = c \<longrightarrow> msg_timestamp y < msg_timestamp x) \<and>
     (\<forall>y\<in>set []. msg_chat y = c \<longrightarrow> msg_timestamp y \<le> msg_timestamp x)"
    using assms(2) by simp
  then show ?thesis unfolding picked_def by blast
qed

lemma latest_invD:
  assumes "latest_inv r xs chats"
  shows "distinct (map fst chats)"
    and "\<And>c. (map_of chats c = None) = (c \<notin> msg_chat ` set xs)"
    and "\<And>c s. map_of chats c = Some s \<Longrightarrow>
           \<exists>m t. picked c xs m \<and> r (msg_content m) = Inr t \<and> s = new_entry m t"
  using assms unfolding latest_inv_def by blast+

lemma latest_invI:
  assumes "distinct (map fst chats)"
    and "\<And>c. (map_of chats c = None) = (c \<notin> msg_chat ` set xs)"
    and "\<And>c s. map_of chats c = Some s \<Longrightarrow>
           \<exists>m t. picked c xs m \<and> r (msg_content m) = Inr t \<and> s = new_entry m t"
  shows "latest_inv r xs chats"
  using assms unfolding latest_inv_def by blast

lemma latest_inv_step:
  assumes inv: "latest_inv r xs chats" and step: "latest_loop r [x] chats = Inr chats'"
  shows "latest_inv r (xs @ [x]) chats'"
proof (cases "is_newer chats x")
  case False
  then have eq: "chats' = chats" using step by simp
  from False obtain s0 where s0: "map_of chats (msg_chat x) = Some s0"
    and le: "msg_timestamp x \<le> latest_timestamp s0"
    by (auto simp: is_newer_def split: option.splits)
  have xin: "msg_chat x \<in> msg_chat ` set xs"
    using latest_invD(2)[OF inv, of "msg_chat x"] s0 by simp
  have dom: "(map_of chats c = None) = (c \<notin> msg_chat ` set (xs @ [x]))" for c
  proof -
    have "msg_chat ` set (xs @ [x]) = msg_chat ` set xs" using xin by auto
    then show ?thesis using latest_invD(2)[OF inv] by simp
  qed
  have sel: "\<exists>m t. picked c (xs @ [x]) m \<and> r (msg_content m) = Inr t \<and> s = new_entry m t"
    if "map_of chats c = Some s" for c s
  proof -
    from latest_invD(3)[OF inv that] obtain m t
      where m: "picked c xs m" "r (msg_content m) = Inr t" "s = new_entry m t"
      by blast
    have "msg_chat x = c \<longrightarrow> msg_timestamp x \<le> msg_timestamp m"
      using s0 le that m(3) by (auto simp: new_entry_def)
    then show ?thesis using picked_snoc_keep[OF m(1)] m(2,3) by blast
  qed
  show ?thesis unfolding eq
  proof (rule latest_invI)
    show "distinct (map fst chats)" by (rule latest_invD(1)[OF inv])
  next
    fix c show "(map_of chats c = None) = (c \<notin> msg_chat ` set (xs @ [x]))" by (rule dom)
  next
    fix c s assume "map_of chats c = Some s"
    then show "\<exists>m t. picked c (xs @ [x]) m \<and> r (msg_content m) = Inr t \<and> s = new_entry m t"
      by (rule sel)
  qed
next
  case True
  with step obtain t where t: "r (msg_content x) = Inr t"
    and eq: "chats' = AList.update (msg_chat x) (new_entry x t) chats"
    by (auto split: sum.splits)
  have d: "distinct (map fst chats')"
    using latest_invD(1)[OF inv] eq by (simp add: distinct_update)
  have mo: "map_of chats' = (map_of chats)(msg_chat x \<mapsto> new_entry x t)"
    by (simp add: eq update_conv')
  have dom: "(map_of chats' c = None) = (c \<notin> msg_chat ` set (xs @ [x]))" for c
    using latest_invD(2)[OF inv, of c] by (simp add: mo)
  have sel: "\<exists>m t. picked c (xs @ [x]) m \<and> r (msg_content m) = Inr t \<and> s = new_entry m t"
    if h: "map_of chats' c = Some s" for c s
  proof (cases "c = msg_chat x")
    case False
    with h have "map_of chats c = Some s" by (simp add: mo)
    from latest_invD(3)[OF inv this] obtain m t
      where m: "picked c xs m" "r (msg_content m) = Inr t" "s = new_entry m t"
      by blast
    have "msg_chat x = c \<longrightarrow> msg_timestamp x \<le> msg_timestamp m" using False by simp
    then show ?thesis using picked_snoc_keep[OF m(1)] m(2,3) by blast
  next
    case c: True
    with h have s: "s = new_entry x t" by (simp add: mo)
    have "picked c (xs @ [x]) x"
    proof (cases "map_of chats c")
      case None
      then have "c \<notin> msg_chat ` set xs" using latest_invD(2)[OF inv, of c] by simp
      then show ?thesis using picked_snoc_first c by blast
    next
      case (Some s0)
      from latest_invD(3)[OF inv Some] obtain m0 t0
        where m0: "picked c xs m0" "s0 = new_entry m0 t0"
        by blast
      have "msg_timestamp m0 < msg_timestamp x"
        using True Some c m0(2) by (simp add: is_newer_def new_entry_def)
      then show ?thesis using picked_snoc_new[OF m0(1)] c by blast
    qed
    then show ?thesis using t s by blast
  qed
  show ?thesis
  proof (rule latest_invI)
    show "distinct (map fst chats')" by (rule d)
  next
    fix c show "(map_of chats' c = None) = (c \<notin> msg_chat ` set (xs @ [x]))" by (rule dom)
  next
    fix c s assume "map_of chats' c = Some s"
    then show "\<exists>m t. picked c (xs @ [x]) m \<and> r (msg_content m) = Inr t \<and> s = new_entry m t"
      by (rule sel)
  qed
qed

lemma latest_loop_inv:
  "latest_loop r xs [] = Inr chats \<Longrightarrow> latest_inv r xs chats"
proof (induction xs arbitrary: chats rule: rev_induct)
  case Nil
  then show ?case by (simp add: latest_inv_def)
next
  case (snoc x xs)
  from snoc.prems obtain chats0 where a: "latest_loop r xs [] = Inr chats0"
    and b: "latest_loop r [x] chats0 = Inr chats"
    by (auto simp: latest_loop_append split: sum.splits)
  show ?case using latest_inv_step[OF snoc.IH[OF a] b] .
qed

lemma latest_loop_total:
  assumes "\<forall>m\<in>set xs. \<exists>t. r (msg_content m) = Inr t"
  shows "\<exists>chats. latest_loop r xs chats0 = Inr chats"
  using assms
proof (induction xs arbitrary: chats0)
  case Nil
  then show ?case by simp
next
  case (Cons m ms)
  from Cons.prems obtain t where t: "r (msg_content m) = Inr t" by auto
  have rest: "\<forall>m\<in>set ms. \<exists>t. r (msg_content m) = Inr t" using Cons.prems by simp
  show ?case
  proof (cases "is_newer chats0 m")
    case True
    then show ?thesis using t Cons.IH[OF rest] by simp
  next
    case False
    then show ?thesis using Cons.IH[OF rest] by simp
  qed
qed

lemma unread_loop_count:
  assumes "\<forall>m\<in>set ms. map_of chats0 (msg_chat m) \<noteq> None"
  shows "\<exists>chats. unread_loop ms chats0 = Inr chats \<and> map fst chats = map fst chats0 \<and>
           (\<forall>c s0. map_of chats0 c = Some s0 \<longrightarrow>
              map_of chats c = Some (s0\<lparr>unread_count := unread_count s0 + unread_in c ms\<rparr>))"
  using assms
proof (induction ms arbitrary: chats0)
  case Nil
  then show ?case by (simp add: unread_in_def)
next
  case (Cons m ms)
  let ?k = "msg_chat m"
  from Cons.prems obtain s where s: "map_of chats0 ?k = Some s" by auto
  have rest0: "\<forall>m\<in>set ms. map_of chats0 (msg_chat m) \<noteq> None" using Cons.prems by simp
  show ?case
  proof (cases "is_unread m")
    case False
    from Cons.IH[OF rest0] obtain chats where c: "unread_loop ms chats0 = Inr chats"
      "map fst chats = map fst chats0"
      "\<forall>c s0. map_of chats0 c = Some s0 \<longrightarrow>
          map_of chats c = Some (s0\<lparr>unread_count := unread_count s0 + unread_in c ms\<rparr>)"
      by blast
    have "unread_in c (m # ms) = unread_in c ms" for c
      using False by (simp add: unread_in_def)
    then show ?thesis using c False by simp
  next
    case True
    let ?s1 = "s\<lparr>unread_count := unread_count s + 1\<rparr>"
    let ?chats1 = "AList.update ?k ?s1 chats0"
    have mo: "map_of ?chats1 = (map_of chats0)(?k \<mapsto> ?s1)" by (simp add: update_conv')
    have kin: "?k \<in> set (map fst chats0)" using s by (metis map_of_eq_None_iff option.distinct(1) set_map)
    have keys: "map fst ?chats1 = map fst chats0" using kin by (simp add: update_keys)
    have rest1: "\<forall>m\<in>set ms. map_of ?chats1 (msg_chat m) \<noteq> None"
      using rest0 by (simp add: mo)
    from Cons.IH[OF rest1] obtain chats where c: "unread_loop ms ?chats1 = Inr chats"
      "map fst chats = map fst ?chats1"
      "\<forall>c s0. map_of ?chats1 c = Some s0 \<longrightarrow>
          map_of chats c = Some (s0\<lparr>unread_count := unread_count s0 + unread_in c ms\<rparr>)"
      by blast
    have run: "unread_loop (m # ms) chats0 = Inr chats" using True s c(1) by simp
    have fin: "map_of chats c = Some (s0\<lparr>unread_count := unread_count s0 + unread_in c (m # ms)\<rparr>)"
      if h: "map_of chats0 c = Some s0" for c s0
    proof (cases "c = ?k")
      case False
      then have "map_of ?chats1 c = Some s0" using h by (simp add: mo)
      moreover have "unread_in c (m # ms) = unread_in c ms" using False by (simp add: unread_in_def)
      ultimately show ?thesis using c(3) by simp
    next
      case ck: True
      then have s0: "s0 = s" using h s by simp
      have "map_of ?chats1 c = Some ?s1" using ck by (simp add: mo)
      then have "map_of chats c = Some (?s1\<lparr>unread_count := unread_count ?s1 + unread_in c ms\<rparr>)"
        using c(3) by blast
      moreover have "unread_in c (m # ms) = 1 + unread_in c ms"
        using ck True by (simp add: unread_in_def)
      ultimately show ?thesis by (simp add: s0 add.assoc)
    qed
    show ?thesis using run c(2) keys fin by simp
  qed
qed

lemma filter_values_single:
  assumes "distinct (map fst al)" and "\<forall>k v. map_of al k = Some v \<longrightarrow> f v = k"
    and "map_of al c = Some s"
  shows "filter (\<lambda>v. f v = c) (map snd al) = [s]"
  using assms
proof (induction al)
  case Nil
  then show ?case by simp
next
  case (Cons p al)
  obtain k v where p: "p = (k, v)" by (cases p)
  have d: "distinct (map fst al)" and knot: "k \<notin> fst ` set al" using Cons.prems(1) p by auto
  have fv: "f v = k" using Cons.prems(2) p by simp
  have sub: "\<forall>k' v'. map_of al k' = Some v' \<longrightarrow> f v' = k'"
  proof (intro allI impI)
    fix k' v' assume a: "map_of al k' = Some v'"
    then have "k' \<in> fst ` set al" by (metis map_of_eq_None_iff option.distinct(1))
    then have "k' \<noteq> k" using knot by blast
    then have "map_of (p # al) k' = Some v'" using a p by simp
    then show "f v' = k'" using Cons.prems(2) by blast
  qed
  show ?case
  proof (cases "c = k")
    case True
    then have sv: "s = v" using Cons.prems(3) p by simp
    have "f v' \<noteq> c" if "v' \<in> snd ` set al" for v'
    proof -
      from that obtain k' where "(k', v') \<in> set al" by force
      then have "map_of al k' = Some v'" using d by simp
      then have "f v' = k'" "k' \<in> fst ` set al" using sub by (auto simp: rev_image_eqI dest: map_of_SomeD)
      then show ?thesis using knot True by blast
    qed
    then have "filter (\<lambda>v. f v = c) (map snd al) = []" by (auto simp: filter_empty_conv)
    then show ?thesis using True fv sv p by simp
  next
    case False
    then have "map_of al c = Some s" using Cons.prems(3) p by simp
    from Cons.IH[OF d sub this] show ?thesis using False fv p by simp
  qed
qed

lemma summarize_sound:
  assumes run: "summarize r msgs = Inr out" and cin: "c \<in> msg_chat ` set msgs"
  shows "\<exists>s m t. filter (\<lambda>s. chat_id s = c) out = [s] \<and> picked c msgs m \<and>
           r (msg_content m) = Inr t \<and>
           s = (new_entry m t)\<lparr>unread_count := unread_in c msgs\<rparr>"
proof -
  from run obtain chats0 where l: "latest_loop r msgs [] = Inr chats0"
    by (auto simp: summarize_def split: sum.splits)
  have inv: "latest_inv r msgs chats0" using latest_loop_inv[OF l] .
  have covered: "\<forall>m\<in>set msgs. map_of chats0 (msg_chat m) \<noteq> None"
    using latest_invD(2)[OF inv] by simp
  from unread_loop_count[OF covered] obtain chats where u: "unread_loop msgs chats0 = Inr chats"
    and keys: "map fst chats = map fst chats0"
    and vals: "\<forall>c s0. map_of chats0 c = Some s0 \<longrightarrow>
          map_of chats c = Some (s0\<lparr>unread_count := unread_count s0 + unread_in c msgs\<rparr>)"
    by blast
  have out: "out = map snd chats" using run l u by (simp add: summarize_def)
  have d: "distinct (map fst chats)" using keys latest_invD(1)[OF inv] by simp
  have same_dom: "map_of chats k = None \<longleftrightarrow> map_of chats0 k = None" for k
    using keys by (metis map_of_eq_None_iff set_map)
  have entry: "\<exists>m t. picked k msgs m \<and> r (msg_content m) = Inr t \<and>
                 v = (new_entry m t)\<lparr>unread_count := unread_in k msgs\<rparr>"
    if h: "map_of chats k = Some v" for k v
  proof -
    from h same_dom[of k] obtain s0 where s0: "map_of chats0 k = Some s0" by auto
    from latest_invD(3)[OF inv s0] obtain m t
      where m: "picked k msgs m" "r (msg_content m) = Inr t" "s0 = new_entry m t" by blast
    have "v = s0\<lparr>unread_count := unread_count s0 + unread_in k msgs\<rparr>"
      using vals s0 h by simp
    then have "v = (new_entry m t)\<lparr>unread_count := unread_in k msgs\<rparr>"
      using m(3) by (simp add: new_entry_def)
    then show ?thesis using m(1,2) by blast
  qed
  have ids: "\<forall>k v. map_of chats k = Some v \<longrightarrow> chat_id v = k"
  proof (intro allI impI)
    fix k v assume "map_of chats k = Some v"
    from entry[OF this] obtain m t where "picked k msgs m"
      "v = (new_entry m t)\<lparr>unread_count := unread_in k msgs\<rparr>" by blast
    then show "chat_id v = k" by (auto simp: picked_def new_entry_def)
  qed
  have "map_of chats0 c \<noteq> None" using latest_invD(2)[OF inv, of c] cin by simp
  then obtain s where s: "map_of chats c = Some s" using same_dom[of c] by auto
  have "filter (\<lambda>s. chat_id s = c) out = [s]"
    unfolding out using filter_values_single[OF d ids s] .
  then show ?thesis using entry[OF s] by blast
qed

lemma summarize_total:
  assumes "\<forall>m\<in>set msgs. \<exists>t. r (msg_content m) = Inr t"
  shows "\<exists>out. summarize r msgs = Inr out"
proof -
  from latest_loop_total[OF assms] obtain chats0 where l: "latest_loop r msgs [] = Inr chats0"
    by blast
  have covered: "\<forall>m\<in>set msgs. map_of chats0 (msg_chat m) \<noteq> None"
    using latest_invD(2)[OF latest_loop_inv[OF l]] by simp
  from unread_loop_count[OF covered] obtain chats where "unread_loop msgs chats0 = Inr chats"
    by blast
  then show ?thesis using l by (simp add: summarize_def)
qed

lemma pickedD:
  assumes "picked c xs m"
  shows "m \<in> set xs" and "msg_chat m = c"
    and "\<And>x. x \<in> set xs \<Longrightarrow> msg_chat x = c \<Longrightarrow> msg_timestamp x \<le> msg_timestamp m"
proof -
  from assms obtain pre post where p: "xs = pre @ m # post" "msg_chat m = c"
    "\<forall>x\<in>set pre. msg_chat x = c \<longrightarrow> msg_timestamp x < msg_timestamp m"
    "\<forall>x\<in>set post. msg_chat x = c \<longrightarrow> msg_timestamp x \<le> msg_timestamp m"
    unfolding picked_def by blast
  show "m \<in> set xs" using p(1) by simp
  show "msg_chat m = c" by (rule p(2))
  fix x assume x: "x \<in> set xs" "msg_chat x = c"
  from x(1) p(1) consider "x \<in> set pre" | "x = m" | "x \<in> set post" by auto
  then show "msg_timestamp x \<le> msg_timestamp m"
  proof cases
    case 1
    then show ?thesis using p(3) x(2) by (simp add: less_imp_le)
  next
    case 2
    then show ?thesis by simp
  next
    case 3
    then show ?thesis using p(4) x(2) by simp
  qed
qed

lemma text_get_default_total: "\<exists>t. text_get_default c = Inr t"
  by (simp add: text_get_default_def split: option.splits)

lemma ms_get_chats_summaries_total: "\<exists>out. ms_get_chats_summaries msgs = Inr out"
  unfolding ms_get_chats_summaries_def
  by (rule summarize_total) (simp add: text_get_default_total)

lemma get_chats_summaries_total:
  assumes "\<forall>m\<in>set msgs. content_text (msg_content m) \<noteq> None"
  shows "\<exists>out. get_chats_summaries msgs = Inr out"
  unfolding get_chats_summaries_def
proof (rule summarize_total, rule ballI)
  fix m assume "m \<in> set msgs"
  then have "content_text (msg_content m) \<noteq> None" using assms by blast
  then show "\<exists>t. text_or_placeholder (msg_content m) = Inr t"
    by (auto simp: text_or_placeholder_def split: option.splits text_value.splits)
qed

lemma summarize_latest:
  assumes "summarize r msgs = Inr out" and "c \<in> msg_chat ` set msgs"
  shows "\<exists>s pre m post.
           filter (\<lambda>s. chat_id s = c) out = [s] \<and> msgs = pre @ m # post \<and> msg_chat m = c \<and>
           (\<forall>x\<in>set pre. msg_chat x = c \<longrightarrow> msg_timestamp x < msg_timestamp m) \<and>
           (\<forall>x\<in>set post. msg_chat x = c \<longrightarrow> msg_timestamp x \<le> msg_timestamp m) \<and>
           latest_timestamp s = msg_timestamp m \<and>
           r (msg_content m) = Inr (latest_message s) \<and>
           is_group s = msg_is_group m"
proof -
  from summarize_sound[OF assms] obtain s m t where
    f: "filter (\<lambda>s. chat_id s = c) out = [s]" and p: "picked c msgs m"
    and t: "r (msg_content m) = Inr t"
    and s: "s = (new_entry m t)\<lparr>unread_count := unread_in c msgs\<rparr>"
    by blast
  from p obtain pre post where d: "msgs = pre @ m # post" "msg_chat m = c"
    "\<forall>x\<in>set pre. msg_chat x = c \<longrightarrow> msg_timestamp x < msg_timestamp m"
    "\<forall>x\<in>set post. msg_chat x = c \<longrightarrow> msg_timestamp x \<le> msg_timestamp m"
    unfolding picked_def by blast
  have "latest_timestamp s = msg_timestamp m" "latest_message s = t" "is_group s = msg_is_group m"
    using s by (simp_all add: new_entry_def)
  then show ?thesis using f d t by blast
qed

text \<open>
  Claim C2. For every message list and every chat occurring in it, the summary of the chat
  takes its latest-message fields from a message \<open>m\<close> of the chat such that no message of
  the chat has a larger timestamp and every earlier message of the chat has a strictly
  smaller one: the maximum timestamp, and the first message in iteration order among
  those that share it. The session-scoped aggregation always returns; the one of
  \<^verbatim>\<open>whatsapp_api.py\<close> returns such a summary whenever it returns, and it returns when
  every content has the key \<^verbatim>\<open>"text"\<close>.
\<close>

theorem get_chats_latest_is_first_maximum:
  assumes "c \<in> msg_chat ` set msgs"
  shows "(\<exists>out s pre m post.
            ms_get_chats_summaries msgs = Inr out \<and>
            filter (\<lambda>s. chat_id s = c) out = [s] \<and> msgs = pre @ m # post \<and> msg_chat m = c \<and>
            (\<forall>x\<in>set pre. msg_chat x = c \<longrightarrow> msg_timestamp x < msg_timestamp m) \<and>
            (\<forall>x\<in>set post. msg_chat x = c \<longrightarrow> msg_timestamp x \<le> msg_timestamp m) \<and>
            latest_timestamp s = msg_timestamp m \<and>
            text_get_default (msg_content m) = Inr (latest_message s) \<and>
            is_group s = msg_is_group m) \<and>
         (\<forall>out. get_chats_summaries msgs = Inr out \<longrightarrow>
            (\<exists>s pre m post.
               filter (\<lambda>s. chat_id s = c) out = [s] \<and> msgs = pre @ m # post \<and> msg_chat m = c \<and>
               (\<forall>x\<in>set pre. msg_chat x = c \<longrightarrow> msg_timestamp x < msg_timestamp m) \<and>
               (\<forall>x\<in>set post. msg_chat x = c \<longrightarrow> msg_timestamp x \<le> msg_timestamp m) \<and>
               latest_timestamp s = msg_timestamp m \<and>
               text_or_placeholder (msg_content m) = Inr (latest_message s) \<and>
               is_group s = msg_is_group m)) \<and>
         (list_all (\<lambda>m. content_text (msg_content m) \<noteq> None) msgs \<longrightarrow>
            (\<exists>out. get_chats_summaries msgs = Inr out))"
proof (intro conjI)
  from ms_get_chats_summaries_total obtain out where o: "ms_get_chats_summaries msgs = Inr out"
    by blast
  then have "summarize text_get_default msgs = Inr out"
    by (simp add: ms_get_chats_summaries_def)
  from summarize_latest[OF this assms] o
  show "\<exists>out s pre m post.
            ms_get_chats_summaries msgs = Inr out \<and>
            filter (\<lambda>s. chat_id s = c) out = [s] \<and> msgs = pre @ m # post \<and> msg_chat m = c \<and>
            (\<forall>x\<in>set pre. msg_chat x = c \<longrightarrow> msg_timestamp x < msg_timestamp m) \<and>
            (\<forall>x\<in>set post. msg_chat x = c \<longrightarrow> msg_timestamp x \<le> msg_timestamp m) \<and>
            latest_timestamp s = msg_timestamp m \<and>
            text_get_default (msg_content m) = Inr (latest_message s) \<and>
            is_group s = msg_is_group m"
    by blast
next
  show "\<forall>out. get_chats_summaries msgs = Inr out \<longrightarrow>
            (\<exists>s pre m post.
               filter (\<lambda>s. chat_id s = c) out = [s] \<and> msgs = pre @ m # post \<and> msg_chat m = c \<and>
               (\<forall>x\<in>set pre. msg_chat x = c \<longrightarrow> msg_timestamp x < msg_timestamp m) \<and>
               (\<forall>x\<in>set post. msg_chat x = c \<longrightarrow> msg_timestamp x \<le> msg_timestamp m) \<and>
               latest_timestamp s = msg_timestamp m \<and>
               text_or_placeholder (msg_content m) = Inr (latest_message s) \<and>
               is_group s = msg_is_group m)"
  proof (intro allI impI)
    fix out assume "get_chats_summaries msgs = Inr out"
    then have "summarize text_or_placeholder msgs = Inr out"
      by (simp add: get_chats_summaries_def)
    from summarize_latest[OF this assms]
    show "\<exists>s pre m post.
               filter (\<lambda>s. chat_id s = c) out = [s] \<and> msgs = pre @ m # post \<and> msg_chat m = c \<and>
               (\<forall>x\<in>set pre. msg_chat x = c \<longrightarrow> msg_timestamp x < msg_timestamp m) \<and>
               (\<forall>x\<in>set post. msg_chat x = c \<longrightarrow> msg_timestamp x \<le> msg_timestamp m) \<and>
               latest_timestamp s = msg_timestamp m \<and>
               text_or_placeholder (msg_content m) = Inr (latest_message s) \<and>
               is_group s = msg_is_group m" .
  qed
next
  show "list_all (\<lambda>m. content_text (msg_content m) \<noteq> None) msgs \<longrightarrow>
            (\<exists>out. get_chats_summaries msgs = Inr out)"
    using get_chats_summaries_total[of msgs] by (simp add: list_all_iff)
qed

text \<open>The summaries computed for the example inputs.\<close>

lemma example_messages_ms_summaries:
  "ms_get_chats_summaries example_messages =
     Inr [\<lparr>chat_id = ''a'', is_group = False, latest_message = PyStr ''first'',
           latest_timestamp = 2, unread_count = 2\<rparr>,
          \<lparr>chat_id = ''b'', is_group = True, latest_message = PyStr ''other'',
           latest_timestamp = 5, unread_count = 0\<rparr>]"
  by (simp add: ms_get_chats_summaries_def summarize_def example_messages_def is_newer_def
      new_entry_def text_get_default_def is_unread_def)

lemma example_messages_summaries:
  "get_chats_summaries example_messages =
     Inr [\<lparr>chat_id = ''a'', is_group = False, latest_message = PyStr ''first'',
           latest_timestamp = 2, unread_count = 2\<rparr>,
          \<lparr>chat_id = ''b'', is_group = True, latest_message = PyStr ''other'',
           latest_timestamp = 5, unread_count = 0\<rparr>]"
  by (simp add: get_chats_summaries_def summarize_def example_messages_def is_newer_def
      new_entry_def text_or_placeholder_def is_unread_def)

theorem get_chats_latest_is_first_maximum_witness:
  "''a'' \<in> msg_chat ` set example_messages \<and>
   get_chats_summaries example_messages =
     Inr [\<lparr>chat_id = ''a'', is_group = False, latest_message = PyStr ''first'',
           latest_timestamp = 2, unread_count = 2\<rparr>,
          \<lparr>chat_id = ''b'', is_group = True, latest_message = PyStr ''other'',
           latest_timestamp = 5, unread_count = 0\<rparr>] \<and>
   (\<exists>out s pre m post.
      ms_get_chats_summaries example_messages = Inr out \<and>
      filter (\<lambda>s. chat_id s = ''a'') out = [s] \<and> example_messages = pre @ m # post \<and>
      msg_chat m = ''a'' \<and>
      (\<forall>x\<in>set pre. msg_chat x = ''a'' \<longrightarrow> msg_timestamp x < msg_timestamp m) \<and>
      (\<forall>x\<in>set post. msg_chat x = ''a'' \<longrightarrow> msg_timestamp x \<le> msg_timestamp m) \<and>
      latest_timestamp s = msg_timestamp m \<and>
      text_get_default (msg_content m) = Inr (latest_message s) \<and>
      is_group s = msg_is_group m)"
proof -
  have h: "''a'' \<in> msg_chat ` set example_messages"
    by (simp add: example_messages_def)
  note t = get_chats_latest_is_first_maximum [OF h, THEN conjunct1]
  show ?thesis using h example_messages_summaries t by (intro conjI)
qed

lemma summarize_latest_timestamp:
  assumes "summarize r msgs = Inr out" and "c \<in> msg_chat ` set msgs"
  shows "\<exists>s m. filter (\<lambda>s. chat_id s = c) out = [s] \<and> m \<in> set msgs \<and> msg_chat m = c \<and>
           latest_timestamp s = msg_timestamp m \<and>
           (\<forall>x\<in>set msgs. msg_chat x = c \<longrightarrow> msg_timestamp x \<le> msg_timestamp m)"
proof -
  from summarize_sound[OF assms] obtain s m t where
    f: "filter (\<lambda>s. chat_id s = c) out = [s]" and p: "picked c msgs m"
    and s: "s = (new_entry m t)\<lparr>unread_count := unread_in c msgs\<rparr>"
    by blast
  have "latest_timestamp s = msg_timestamp m" using s by (simp add: new_entry_def)
  then show ?thesis using f pickedD[OF p] by blast
qed

lemma three_timestamps_latest:
  fixes T1 T2 T3 :: "'t::linorder"
  assumes ts: "mset (map msg_timestamp (filter (\<lambda>m. msg_chat m = c) msgs)) = {#T1, T2, T3#}"
    and lt: "T1 < T2" "T2 < T3"
    and run: "summarize r msgs = Inr out"
  shows "\<exists>s. filter (\<lambda>s. chat_id s = c) out = [s] \<and> latest_timestamp s = T3"
proof -
  have "set_mset (mset (map msg_timestamp (filter (\<lambda>m. msg_chat m = c) msgs))) = {T1, T2, T3}"
    unfolding ts by auto
  then have st: "msg_timestamp ` {m \<in> set msgs. msg_chat m = c} = {T1, T2, T3}"
    by simp
  then have "T3 \<in> msg_timestamp ` {m \<in> set msgs. msg_chat m = c}" by simp
  then obtain m3 where m3: "m3 \<in> set msgs" "msg_chat m3 = c" "msg_timestamp m3 = T3" by auto
  then have cin: "c \<in> msg_chat ` set msgs" by auto
  from summarize_latest_timestamp[OF run cin] obtain s m where
    f: "filter (\<lambda>s. chat_id s = c) out = [s]" and m: "m \<in> set msgs" "msg_chat m = c"
    and l: "latest_timestamp s = msg_timestamp m"
    and mx: "\<forall>x\<in>set msgs. msg_chat x = c \<longrightarrow> msg_timestamp x \<le> msg_timestamp m"
    by blast
  have "msg_timestamp m \<in> msg_timestamp ` {m \<in> set msgs. msg_chat m = c}" using m by blast
  then have "msg_timestamp m \<in> {T1, T2, T3}" using st by simp
  moreover have "T3 \<le> msg_timestamp m" using mx m3 by blast
  ultimately have "msg_timestamp m = T3" using lt by auto
  then show ?thesis using f l by simp
qed

text \<open>
  Claim C6. If the messages of a chat have the timestamps \<open>T1 < T2 < T3\<close>, then for every
  permutation of the input list the summary of the chat has the latest timestamp \<open>T3\<close>:
  always in the session-scoped aggregation, and whenever a summary is returned in the
  aggregation of \<^verbatim>\<open>whatsapp_api.py\<close>.
\<close>

theorem latest_timestamp_any_order:
  fixes T1 T2 T3 :: "'t::linorder"
  assumes "mset (map msg_timestamp (filter (\<lambda>m. msg_chat m = c) msgs)) = {#T1, T2, T3#}"
    and "T1 < T2" and "T2 < T3"
    and "mset msgs' = mset msgs"
  shows "(\<exists>out s. ms_get_chats_summaries msgs' = Inr out \<and>
            filter (\<lambda>s. chat_id s = c) out = [s] \<and> latest_timestamp s = T3) \<and>
         (\<forall>out. get_chats_summaries msgs' = Inr out \<longrightarrow>
            (\<exists>s. filter (\<lambda>s. chat_id s = c) out = [s] \<and> latest_timestamp s = T3))"
proof -
  have "mset (map msg_timestamp (filter (\<lambda>m. msg_chat m = c) msgs')) =
        image_mset msg_timestamp (filter_mset (\<lambda>m. msg_chat m = c) (mset msgs'))"
    by simp
  also have "\<dots> = mset (map msg_timestamp (filter (\<lambda>m. msg_chat m = c) msgs))"
    unfolding assms(4) by simp
  finally have ts: "mset (map msg_timestamp (filter (\<lambda>m. msg_chat m = c) msgs')) = {#T1, T2, T3#}"
    using assms(1) by simp
  note l = three_timestamps_latest[OF ts assms(2,3)]
  from ms_get_chats_summaries_total obtain out where o: "ms_get_chats_summaries msgs' = Inr out"
    by blast
  then have "summarize text_get_default msgs' = Inr out"
    by (simp add: ms_get_chats_summaries_def)
  from l[OF this] o
  have a: "\<exists>out s. ms_get_chats_summaries msgs' = Inr out \<and>
            filter (\<lambda>s. chat_id s = c) out = [s] \<and> latest_timestamp s = T3"
    by blast
  have b: "\<exists>s. filter (\<lambda>s. chat_id s = c) out = [s] \<and> latest_timestamp s = T3"
    if "get_chats_summaries msgs' = Inr out" for out
    using l[of text_or_placeholder out] that by (simp add: get_chats_summaries_def)
  from a b show ?thesis by blast
qed

theorem latest_timestamp_any_order_witness:
  "mset (map msg_timestamp (filter (\<lambda>m. msg_chat m = ''a'') three_messages)) = {#1, 2, 3#} \<and>
   (1::nat) < 2 \<and> (2::nat) < 3 \<and> mset (rev three_messages) = mset three_messages \<and>
   get_chats_summaries (rev three_messages) =
     Inr [\<lparr>chat_id = ''a'', is_group = False, latest_message = PyStr ''three'',
           latest_timestamp = 3, unread_count = 0\<rparr>] \<and>
   (\<exists>out s. ms_get_chats_summaries (rev three_messages) = Inr out \<and>
      filter (\<lambda>s. chat_id s = ''a'') out = [s] \<and> latest_timestamp s = 3)"
proof -
  have h1: "mset (map msg_timestamp (filter (\<lambda>m. msg_chat m = ''a'') three_messages)) = {#1, 2, 3#}"
    by (simp add: three_messages_def)
  have h2: "(1::nat) < 2" and h3: "(2::nat) < 3" by simp_all
  have h4: "mset (rev three_messages) = mset three_messages" by simp
  have e: "get_chats_summaries (rev three_messages) =
     Inr [\<lparr>chat_id = ''a'', is_group = False, latest_message = PyStr ''three'',
           latest_timestamp = 3, unread_count = 0\<rparr>]"
    by (simp add: get_chats_summaries_def summarize_def three_messages_def is_newer_def
        new_entry_def text_or_placeholder_def is_unread_def)
  note t = latest_timestamp_any_order [OF h1 h2 h3 h4, THEN conjunct1]
  show ?thesis using h1 h2 h3 h4 e t by (intro conjI)
qed

lemma summarize_unread_count:
  assumes "summarize r msgs = Inr out" and "c \<in> msg_chat ` set msgs"
  shows "\<exists>s. filter (\<lambda>s. chat_id s = c) out = [s] \<and>
           unread_count s =
             int (length (filter (\<lambda>m. msg_chat m = c \<and> \<not> msg_is_read m \<and> \<not> msg_is_from_me m) msgs))"
proof -
  from summarize_sound[OF assms] obtain s m t where
    f: "filter (\<lambda>s. chat_id s = c) out = [s]"
    and s: "s = (new_entry m t)\<lparr>unread_count := unread_in c msgs\<rparr>"
    by blast
  have "unread_count s = unread_in c msgs" using s by simp
  then show ?thesis using f by (simp add: unread_in_def is_unread_def)
qed

text \<open>
  Claim C7. For every message list and every chat occurring in it, the unread count of
  the chat's summary is the number of the chat's messages with \<open>is_read\<close> false and
  \<open>is_from_me\<close> false, so a message with \<open>is_from_me\<close> true is never counted, whatever its
  \<open>is_read\<close>: always in the session-scoped aggregation, and whenever a summary is returned
  in the aggregation of \<^verbatim>\<open>whatsapp_api.py\<close>.
\<close>

theorem unread_count_is_number_of_unread:
  assumes "c \<in> msg_chat ` set msgs"
  shows "(\<exists>out s. ms_get_chats_summaries msgs = Inr out \<and>
            filter (\<lambda>s. chat_id s = c) out = [s] \<and>
            unread_count s =
              int (length (filter (\<lambda>m. msg_chat m = c \<and> \<not> msg_is_read m \<and> \<not> msg_is_from_me m) msgs))) \<and>
         (\<forall>out. get_chats_summaries msgs = Inr out \<longrightarrow>
            (\<exists>s. filter (\<lambda>s. chat_id s = c) out = [s] \<and>
               unread_count s =
                 int (length (filter (\<lambda>m. msg_chat m = c \<and> \<not> msg_is_read m \<and> \<not> msg_is_from_me m) msgs))))"
proof -
  from ms_get_chats_summaries_total obtain out where o: "ms_get_chats_summaries msgs = Inr out"
    by blast
  then have "summarize text_get_default msgs = Inr out"
    by (simp add: ms_get_chats_summaries_def)
  from summarize_unread_count[OF this assms] o
  have a: "\<exists>out s. ms_get_chats_summaries msgs = Inr out \<and>
            filter (\<lambda>s. chat_id s = c) out = [s] \<and>
            unread_count s =
              int (length (filter (\<lambda>m. msg_chat m = c \<and> \<not> msg_is_read m \<and> \<not> msg_is_from_me m) msgs))"
    by blast
  have b: "\<exists>s. filter (\<lambda>s. chat_id s = c) out = [s] \<and>
               unread_count s =
                 int (length (filter (\<lambda>m. msg_chat m = c \<and> \<not> msg_is_read m \<and> \<not> msg_is_from_me m) msgs))"
    if "get_chats_summaries msgs = Inr out" for out
    using summarize_unread_count[of text_or_placeholder msgs out c] that assms
    by (simp add: get_chats_summaries_def)
  from a b show ?thesis by blast
qed

theorem unread_count_is_number_of_unread_witness:
  "''a'' \<in> msg_chat ` set example_messages \<and>
   get_chats_summaries example_messages =
     Inr [\<lparr>chat_id = ''a'', is_group = False, latest_message = PyStr ''first'',
           latest_timestamp = 2, unread_count = 2\<rparr>,
          \<lparr>chat_id = ''b'', is_group = True, latest_message = PyStr ''other'',
           latest_timestamp = 5, unread_count = 0\<rparr>] \<and>
   (\<exists>out s. ms_get_chats_summaries example_messages = Inr out \<and>
      filter (\<lambda>s. chat_id s = ''a'') out = [s] \<and>
      unread_count s =
        int (length (filter (\<lambda>m. msg_chat m = ''a'' \<and> \<not> msg_is_read m \<and> \<not> msg_is_from_me m)
               example_messages)))"
proof -
  have h: "''a'' \<in> msg_chat ` set example_messages"
    by (simp add: example_messages_def)
  note t = unread_count_is_number_of_unread [OF h, THEN conjunct1]
  show ?thesis using h example_messages_summaries t by (intro conjI)
qed

lemma latest_loop_cong:
  assumes "\<forall>m\<in>set xs. r1 (msg_content m) = r2 (msg_content m)"
  shows "latest_loop r1 xs chats = latest_loop r2 xs chats"
  using assms by (induction xs arbitrary: chats) (auto split: sum.splits)

lemma get_chats_summaries_agree_on_text:
  assumes "\<forall>m\<in>set msgs. \<exists>s. content_text (msg_content m) = Some (PyStr s) \<and> s \<noteq> []"
  shows "get_chats_summaries msgs = ms_get_chats_summaries msgs"
proof -
  have "\<forall>m\<in>set msgs. text_or_placeholder (msg_content m) = text_get_default (msg_content m)"
    using assms by (auto simp: text_or_placeholder_def text_get_default_def)
  from latest_loop_cong[OF this] show ?thesis
    by (simp add: get_chats_summaries_def ms_get_chats_summaries_def summarize_def)
qed

text \<open>
  Claim C3. The two aggregations do not agree when the latest message has a null or an
  empty text: \<^verbatim>\<open>whatsapp_api.py\<close> renders the bracketed content type, while
  \<^verbatim>\<open>whatsapp_api_multisession.py\<close> returns the null, or the empty string, itself
  (its \<^verbatim>\<open>.get\<close> default applies only when the key is absent).
\<close>

theorem get_chats_differ_on_null_or_empty_text:
  "get_chats_summaries [null_text_message] =
     Inr [\<lparr>chat_id = ''a'', is_group = False, latest_message = PyStr ''[image]'',
           latest_timestamp = 1, unread_count = 0\<rparr>] \<and>
   ms_get_chats_summaries [null_text_message] =
     Inr [\<lparr>chat_id = ''a'', is_group = False, latest_message = PyNone,
           latest_timestamp = 1, unread_count = 0\<rparr>] \<and>
   get_chats_summaries [empty_text_message] =
     Inr [\<lparr>chat_id = ''a'', is_group = False, latest_message = PyStr ''[image]'',
           latest_timestamp = 1, unread_count = 0\<rparr>] \<and>
   ms_get_chats_summaries [empty_text_message] =
     Inr [\<lparr>chat_id = ''a'', is_group = False, latest_message = PyStr [],
           latest_timestamp = 1, unread_count = 0\<rparr>]"
  by (simp add: get_chats_summaries_def ms_get_chats_summaries_def summarize_def
      null_text_message_def empty_text_message_def is_newer_def new_entry_def
      text_or_placeholder_def text_get_default_def is_unread_def placeholder_def)

section \<open>Properties of the handlers\<close>

lemma contains_iff: "contains needle hay \<longleftrightarrow> (\<exists>p s. hay = p @ needle @ s)"
proof (induction hay)
  case Nil
  then show ?case by auto
next
  case (Cons c cs)
  have "startswith (c # cs) needle \<longleftrightarrow> (\<exists>s. c # cs = needle @ s)"
    unfolding startswith_def by (metis append_eq_conv_conj append_take_drop_id)
  moreover have "(\<exists>p s. c # cs = p @ needle @ s) \<longleftrightarrow>
      (\<exists>s. c # cs = needle @ s) \<or> (\<exists>p s. cs = p @ needle @ s)"
  proof
    assume "\<exists>p s. c # cs = p @ needle @ s"
    then obtain p s where e: "c # cs = p @ needle @ s" by blast
    show "(\<exists>s. c # cs = needle @ s) \<or> (\<exists>p s. cs = p @ needle @ s)"
    proof (cases p)
      case Nil
      then show ?thesis using e by auto
    next
      case (Cons a p')
      then have "cs = p' @ needle @ s" using e by simp
      then show ?thesis by blast
    qed
  next
    assume "(\<exists>s. c # cs = needle @ s) \<or> (\<exists>p s. cs = p @ needle @ s)"
    then show "\<exists>p s. c # cs = p @ needle @ s"
    proof
      assume "\<exists>s. c # cs = needle @ s"
      then obtain s where "c # cs = [] @ needle @ s" by auto
      then show ?thesis by blast
    next
      assume "\<exists>p s. cs = p @ needle @ s"
      then obtain p s where "c # cs = (c # p) @ needle @ s" by auto
      then show ?thesis by blast
    qed
  qed
  ultimately show ?case using Cons.IH by simp
qed

text \<open>
  Claim C1, as the two handlers implement it. Read in the specification's taxonomy, the
  status mapping of \<^verbatim>\<open>whatsapp_api.py\<close> is the specification's pair-phone table except
  at status 404, which has no rule of its own there and is a \<open>BackendError\<close>; the
  session-scoped mapping is the table except on a status 400 whose body does not contain
  "Already authenticated", which is reported with the detail "Failed to generate
  pairing code" whatever else the body says.
\<close>

theorem pair_phone_outcomes:
  "outcome_of (pair_phone_response r) =
     (if status_code r = 404 then BackendError else pair_phone_table r) \<and>
   outcome_of (ms_pair_phone_response r) =
     (if status_code r = 400 \<and> \<not> contains ''Already authenticated'' (resp_text r)
      then InvalidRequest ''Failed to generate pairing code''
      else pair_phone_table r)"
  by (simp add: pair_phone_response_def ms_pair_phone_response_def pair_phone_table_def Let_def)

text \<open>
  The table itself does not hold of either handler: a 404 reaches the caller of
  \<^verbatim>\<open>whatsapp_api.py\<close> as a \<open>BackendError\<close>, and a 400 with the body "Phone number is
  required" reaches the caller of the session-scoped handler with another reason.
\<close>

theorem pair_phone_table_counterexample:
  "outcome_of (pair_phone_response
      \<lparr>status_code = 404, resp_text = ''Session not found'', resp_json = JNull,
       resp_messages = ([] :: nat message list)\<rparr>) = BackendError \<and>
   pair_phone_table
      \<lparr>status_code = 404, resp_text = ''Session not found'', resp_json = JNull,
       resp_messages = ([] :: nat message list)\<rparr> = NotFound ''Session not found'' \<and>
   outcome_of (ms_pair_phone_response
      \<lparr>status_code = 400, resp_text = ''Phone number is required'', resp_json = JNull,
       resp_messages = ([] :: nat message list)\<rparr>) =
     InvalidRequest ''Failed to generate pairing code'' \<and>
   pair_phone_table
      \<lparr>status_code = 400, resp_text = ''Phone number is required'', resp_json = JNull,
       resp_messages = ([] :: nat message list)\<rparr> =
     InvalidRequest ''Phone number is required''"
  by (simp add: pair_phone_response_def ms_pair_phone_response_def pair_phone_table_def
      Let_def startswith_def)

lemma health_check_cases:
  fixes backend :: "'t backend"
  defines "rq \<equiv> http_get (str (GO_SERVICE_URL @ ''/auth/status''))"
  shows "\<exists>status service.
      health_check backend log = (Inr (Health status service), log @ [rq]) \<and>
      (status = ''healthy'' \<or> status = ''degraded'' \<or> status = ''unhealthy'') \<and>
      (status = ''healthy'') = (\<exists>r. backend log rq = Responded r \<and> status_code r = 200) \<and>
      (status = ''degraded'') = (\<exists>r. backend log rq = Responded r \<and> status_code r \<noteq> 200) \<and>
      (status = ''unhealthy'') = (\<forall>r. backend log rq \<noteq> Responded r)"
proof (cases "backend log rq")
  case (Responded r)
  then show ?thesis unfolding rq_def by (cases "status_code r = 200") (simp_all add: health_check_def Let_def)
next
  case (RequestError f)
  then show ?thesis unfolding rq_def by (simp add: health_check_def Let_def)
next
  case OtherError
  then show ?thesis unfolding rq_def by (simp add: health_check_def Let_def)
qed

lemma ms_health_check_cases:
  fixes backend :: "'t backend"
  defines "rq \<equiv> http_get (str (GO_SERVICE_URL @ ''/sessions/list''))"
  shows "\<exists>status service.
      ms_health_check backend log = (Inr (Health status service), log @ [rq]) \<and>
      (status = ''healthy'' \<or> status = ''degraded'' \<or> status = ''unhealthy'') \<and>
      (status = ''healthy'') = (\<exists>r. backend log rq = Responded r \<and> status_code r = 200) \<and>
      (status = ''degraded'') = (\<exists>r. backend log rq = Responded r \<and> status_code r \<noteq> 200) \<and>
      (status = ''unhealthy'') = (\<forall>r. backend log rq \<noteq> Responded r)"
proof (cases "backend log rq")
  case (Responded r)
  then show ?thesis unfolding rq_def by (cases "status_code r = 200") (simp_all add: ms_health_check_def Let_def)
next
  case (RequestError f)
  then show ?thesis unfolding rq_def by (simp add: ms_health_check_def Let_def)
next
  case OtherError
  then show ?thesis unfolding rq_def by (simp add: ms_health_check_def Let_def)
qed

text \<open>
  Claim C9. Both health checks return, for every outcome of the probe, a report and never
  an exception; the status is "healthy" exactly when the probe is answered with status
  200, "degraded" exactly when it is answered with another status, and "unhealthy"
  exactly when the call itself fails.
\<close>

theorem health_check_never_raises:
  fixes backend :: "'t backend"
  shows "(\<exists>status service.
      health_check backend log =
        (Inr (Health status service), log @ [http_get (str (GO_SERVICE_URL @ ''/auth/status''))]) \<and>
      (status = ''healthy'' \<or> status = ''degraded'' \<or> status = ''unhealthy'') \<and>
      (status = ''healthy'') =
        (\<exists>r. backend log (http_get (str (GO_SERVICE_URL @ ''/auth/status''))) = Responded r \<and>
              status_code r = 200) \<and>
      (status = ''degraded'') =
        (\<exists>r. backend log (http_get (str (GO_SERVICE_URL @ ''/auth/status''))) = Responded r \<and>
              status_code r \<noteq> 200) \<and>
      (status = ''unhealthy'') =
        (\<forall>r. backend log (http_get (str (GO_SERVICE_URL @ ''/auth/status''))) \<noteq> Responded r)) \<and>
   (\<exists>status service.
      ms_health_check backend log =
        (Inr (Health status service), log @ [http_get (str (GO_SERVICE_URL @ ''/sessions/list''))]) \<and>
      (status = ''healthy'' \<or> status = ''degraded'' \<or> status = ''unhealthy'') \<and>
      (status = ''healthy'') =
        (\<exists>r. backend log (http_get (str (GO_SERVICE_URL @ ''/sessions/list''))) = Responded r \<and>
              status_code r = 200) \<and>
      (status = ''degraded'') =
        (\<exists>r. backend log (http_get (str (GO_SERVICE_URL @ ''/sessions/list''))) = Responded r \<and>
              status_code r \<noteq> 200) \<and>
      (status = ''unhealthy'') =
        (\<forall>r. backend log (http_get (str (GO_SERVICE_URL @ ''/sessions/list''))) \<noteq> Responded r))"
  using health_check_cases[of backend log] ms_health_check_cases[of backend log]
  by (rule conjI)

lemma guarded_call_transport:
  assumes "snd (guarded_call rq' k backend log) = log @ rq # rest"
    and "backend log rq = RequestError f"
  shows "fst (guarded_call rq' k backend log) = Inl (HTTPException 503 ''Go service unavailable'') \<and> rest = []"
proof -
  have s: "snd (guarded_call rq' k backend log) = log @ [rq']"
    by (simp add: guarded_call_def split: call_outcome.splits)
  with assms(1) have "rq' = rq" "rest = []" by auto
  then show ?thesis using assms(2) by (simp add: guarded_call_def)
qed

lemma with_phone_transport:
  assumes "snd (with_phone phone body backend log) = log @ rq # rest"
    and b: "\<And>p. snd (body p backend log) = log @ rq # rest \<Longrightarrow>
             fst (body p backend log) = Inl (HTTPException 503 ''Go service unavailable'') \<and> rest = []"
  shows "fst (with_phone phone body backend log) = Inl (HTTPException 503 ''Go service unavailable'') \<and> rest = []"
proof (cases "validate_phone_number phone")
  case (Inl e)
  then show ?thesis using assms(1) by (simp add: with_phone_def)
next
  case (Inr p)
  then show ?thesis using assms(1) b[of p] by (simp add: with_phone_def)
qed

lemma list_sessions_log:
  "snd (list_sessions backend log) = log @ [http_get (str (GO_SERVICE_URL @ ''/sessions/list''))]"
  by (simp add: list_sessions_def guarded_call_def split: call_outcome.splits)

lemma legacy_get_auth_status_eq:
  "legacy_get_auth_status backend log =
     (case fst (list_sessions backend log) of Inl e \<Rightarrow> Inl e | Inr v \<Rightarrow> Inl AttributeError,
      log @ [http_get (str (GO_SERVICE_URL @ ''/sessions/list''))])"
  using list_sessions_log[of backend log]
  by (cases "list_sessions backend log")
     (auto simp: legacy_get_auth_status_def getattr_sessions_def split: sum.splits)

lemma legacy_get_messages_eq:
  "legacy_get_messages backend log =
     (case fst (list_sessions backend log) of Inl e \<Rightarrow> Inl e | Inr v \<Rightarrow> Inl AttributeError,
      log @ [http_get (str (GO_SERVICE_URL @ ''/sessions/list''))])"
  using list_sessions_log[of backend log]
  by (cases "list_sessions backend log")
     (auto simp: legacy_get_messages_def getattr_sessions_def split: sum.splits)

text \<open>
  Claim C10. Whatever the operation: if the request it sends first meets a transport
  failure, the operation ends with the 503 error "Go service unavailable" and sends
  nothing more, so there is no retry and no status mapping is consulted. The health
  checks are no operation of this kind; claim C9 covers them.
\<close>

theorem transport_failure_is_unavailable:
  fixes backend :: "'t::linorder backend"
  assumes "snd (handle op backend log) = log @ rq # rest"
    and "backend log rq = RequestError f"
  shows "fst (handle op backend log) = Inl (HTTPException 503 ''Go service unavailable'') \<and> rest = []"
proof -
  have g: "fst (guarded_call rq' k backend log) =
             Inl (HTTPException 503 ''Go service unavailable'') \<and> rest = []"
    if "snd (guarded_call rq' k backend log) = log @ rq # rest" for rq' k
    using guarded_call_transport[OF that assms(2)] .
  have leg: ?thesis
    if "handle op backend log =
          (case fst (list_sessions backend log) of Inl e \<Rightarrow> Inl e | Inr v \<Rightarrow> Inl AttributeError,
           log @ [http_get (str (GO_SERVICE_URL @ ''/sessions/list''))])"
  proof -
    from that assms(1) have r: "rq = http_get (str (GO_SERVICE_URL @ ''/sessions/list''))" "rest = []"
      by auto
    have "fst (list_sessions backend log) = Inl (HTTPException 503 ''Go service unavailable'')"
      using assms(2) r by (simp add: list_sessions_def guarded_call_def)
    then show ?thesis using that r by simp
  qed
  show ?thesis
  proof (cases op)
    case c: GetQrCode
    show ?thesis using assms(1) unfolding c handle.simps get_qr_code_def by (rule g)
  next
    case c: GetAuthStatus
    show ?thesis using assms(1) unfolding c handle.simps get_auth_status_def by (rule g)
  next
    case c: Logout
    show ?thesis using assms(1) unfolding c handle.simps logout_def by (rule g)
  next
    case c: (PairPhone x)
    show ?thesis using assms(1) unfolding c handle.simps pair_phone_def by (rule g)
  next
    case c: GetMessages
    show ?thesis using assms(1) unfolding c handle.simps get_messages_def by (rule g)
  next
    case c: (GetChatMessages x)
    show ?thesis using assms(1) unfolding c handle.simps get_chat_messages_def by (rule g)
  next
    case c: (UpdateReadStatus x)
    show ?thesis using assms(1) unfolding c handle.simps update_read_status_def by (rule g)
  next
    case c: GetChats
    show ?thesis using assms(1) unfolding c handle.simps get_chats_def by (rule g)
  next
    case c: (CreateSession x)
    show ?thesis using assms(1) unfolding c handle.simps create_session_def
      by (rule with_phone_transport) (rule g)
  next
    case c: ListSessions
    show ?thesis using assms(1) unfolding c handle.simps list_sessions_def by (rule g)
  next
    case c: (GetSessionStatus x)
    show ?thesis using assms(1) unfolding c handle.simps get_session_status_def
      by (rule with_phone_transport) (rule g)
  next
    case c: (ConnectSession x)
    show ?thesis using assms(1) unfolding c handle.simps connect_session_def
      by (rule with_phone_transport) (rule g)
  next
    case c: (DisconnectSession x)
    show ?thesis using assms(1) unfolding c handle.simps disconnect_session_def
      by (rule with_phone_transport) (rule g)
  next
    case c: (DeleteSession x)
    show ?thesis using assms(1) unfolding c handle.simps delete_session_def
      by (rule with_phone_transport) (rule g)
  next
    case c: (MsGetQrCode x)
    show ?thesis using assms(1) unfolding c handle.simps ms_get_qr_code_def
      by (rule with_phone_transport) (rule g)
  next
    case c: (MsGetAuthStatus x)
    show ?thesis using assms(1) unfolding c handle.simps ms_get_auth_status_def
      by (rule with_phone_transport) (rule g)
  next
    case c: (MsPairPhone x y)
    show ?thesis using assms(1) unfolding c handle.simps ms_pair_phone_def Let_def
      by (rule with_phone_transport) (rule g)
  next
    case c: (MsGetMessages x y)
    show ?thesis using assms(1) unfolding c handle.simps ms_get_messages_def
      by (rule with_phone_transport) (rule g)
  next
    case c: (MsGetChatMessages x y z)
    show ?thesis using assms(1) unfolding c handle.simps ms_get_chat_messages_def
      by (rule with_phone_transport) (rule g)
  next
    case c: (MsUpdateReadStatus x y)
    show ?thesis using assms(1) unfolding c handle.simps ms_update_read_status_def
      by (rule with_phone_transport) (rule g)
  next
    case c: (GetUnreadCount x)
    show ?thesis using assms(1) unfolding c handle.simps get_unread_count_def
      by (rule with_phone_transport) (rule g)
  next
    case c: (MsGetChats x)
    show ?thesis using assms(1) unfolding c handle.simps ms_get_chats_def
      by (rule with_phone_transport) (rule g)
  next
    case LegacyGetAuthStatus
    then show ?thesis using leg legacy_get_auth_status_eq[of backend log] by simp
  next
    case LegacyGetMessages
    then show ?thesis using leg legacy_get_messages_eq[of backend log] by simp
  qed
qed

theorem transport_failure_is_unavailable_witness:
  "snd (handle (MsGetChats (str ''+1 (415) 555-0100'')) unreachable_backend []) =
     [] @ http_get (str (GO_SERVICE_URL @ ''/sessions/+14155550100/messages'')) # [] \<and>
   unreachable_backend []
     (http_get (str (GO_SERVICE_URL @ ''/sessions/+14155550100/messages''))) =
     RequestError ConnectionRefused \<and>
   fst (handle (MsGetChats (str ''+1 (415) 555-0100'')) unreachable_backend []) =
     Inl (HTTPException 503 ''Go service unavailable'') \<and>
   ([] :: request list) = []"
proof -
  have v: "validate_phone_number (str ''+1 (415) 555-0100'') = Inr (str ''+14155550100'')"
    by (simp add: validate_eval)
  have u: "str (GO_SERVICE_URL @ ''/sessions/'') @ str ''+14155550100'' @ str ''/messages'' =
           str (GO_SERVICE_URL @ ''/sessions/+14155550100/messages'')"
    by (simp add: str_def)
  have h1: "snd (handle (MsGetChats (str ''+1 (415) 555-0100'')) unreachable_backend []) =
     [] @ http_get (str (GO_SERVICE_URL @ ''/sessions/+14155550100/messages'')) # []"
    by (simp add: ms_get_chats_def with_phone_def v guarded_call_def unreachable_backend_def u)
  have h2: "unreachable_backend []
      (http_get (str (GO_SERVICE_URL @ ''/sessions/+14155550100/messages''))) =
     RequestError ConnectionRefused"
    by (simp add: unreachable_backend_def)
  note t = transport_failure_is_unavailable [OF h1 h2]
  show ?thesis using h1 h2 t by (intro conjI) simp_all
qed

lemma legacy_never_reports_no_sessions:
  "fst (legacy_get_auth_status backend log) \<noteq> Inl (HTTPException 404 ''No sessions available'') \<and>
   fst (legacy_get_messages backend log) \<noteq> Inl (HTTPException 404 ''No sessions available'')"
  by (simp add: legacy_get_auth_status_eq legacy_get_messages_eq list_sessions_def
      guarded_call_def split: call_outcome.splits)

text \<open>
  Claim C8. With a backend that lists no session, each legacy handler sends the one
  session-listing request and then raises \<^verbatim>\<open>AttributeError\<close> at
  \<^verbatim>\<open>sessions_response.sessions\<close>; it does not reach the 404 "No sessions available".
\<close>

theorem legacy_handlers_raise_attribute_error:
  "legacy_get_auth_status no_sessions_backend [] =
     (Inl AttributeError, [http_get (str (GO_SERVICE_URL @ ''/sessions/list''))]) \<and>
   legacy_get_messages no_sessions_backend [] =
     (Inl AttributeError, [http_get (str (GO_SERVICE_URL @ ''/sessions/list''))])"
  by (simp add: legacy_get_auth_status_eq legacy_get_messages_eq list_sessions_def
      guarded_call_def no_sessions_backend_def)

end
